theory Spec2Isabelle
  imports Complex_Main "HOL-Library.Word"
begin

unbundle bit_operations_syntax

section \<open>Text model\<close>

text \<open>
  A Python \<^verbatim>\<open>str\<close> is a sequence of Unicode code points; it is modelled as the list of
  their numbers, so that \<open>length\<close> is \<^verbatim>\<open>len\<close>. \<open>lit\<close> gives the string of an ASCII
  literal; a character outside ASCII is written as its code point.
\<close>

type_synonym str = "nat list"

definition lit :: "string \<Rightarrow> str" where
  "lit s = map of_char s"

text \<open>
  The characters that \<^verbatim>\<open>str.strip()\<close> and \<^verbatim>\<open>str.split()\<close> take for blanks: the code points
  with \<^verbatim>\<open>str.isspace\<close>, among them the no-break space \<open>0xA0\<close> and the next line \<open>0x85\<close>.
\<close>

definition whitespace :: str where
  "whitespace =
     [0x09, 0x0A, 0x0B, 0x0C, 0x0D, 0x1C, 0x1D, 0x1E, 0x1F, 0x20, 0x85, 0xA0, 0x1680,
      0x2000, 0x2001, 0x2002, 0x2003, 0x2004, 0x2005, 0x2006, 0x2007, 0x2008, 0x2009, 0x200A,
      0x2028, 0x2029, 0x202F, 0x205F, 0x3000]"

definition isspace :: "nat \<Rightarrow> bool" where
  "isspace c = (c \<in> set whitespace)"

text \<open>
  The other character tests and the case mappings of \<^verbatim>\<open>str\<close> read the Unicode character
  database of the interpreter, which is not part of the program. The database is a
  parameter of the functions that use it: \<^verbatim>\<open>c.isdecimal()\<close> (the class \<^verbatim>\<open>\d\<close> of \<^verbatim>\<open>re\<close> on
  a \<^verbatim>\<open>str\<close> pattern), \<^verbatim>\<open>c.isalpha()\<close>, and \<^verbatim>\<open>s.upper()\<close> and \<^verbatim>\<open>s.lower()\<close>, which map whole
  strings since a character may change to several or depend on its neighbours.
\<close>

record unicode =
  isdecimal :: "nat \<Rightarrow> bool"
  isalpha :: "nat \<Rightarrow> bool"
  upper :: "str \<Rightarrow> str"
  lower :: "str \<Rightarrow> str"

definition lstrip :: "str \<Rightarrow> str" where
  "lstrip s = dropWhile isspace s"

definition strip :: "str \<Rightarrow> str" where
  "strip s = rev (lstrip (rev (lstrip s)))"

text \<open>\<^verbatim>\<open>str.split()\<close> with no argument: the maximal runs of non-whitespace.\<close>

fun split_from :: "str \<Rightarrow> str \<Rightarrow> str list" where
  "split_from cur [] = (if cur = [] then [] else [cur])"
| "split_from cur (c # cs) =
     (if isspace c then (if cur = [] then split_from [] cs else cur # split_from [] cs)
      else split_from (cur @ [c]) cs)"

definition split :: "str \<Rightarrow> str list" where
  "split s = split_from [] s"

definition startswith :: "str \<Rightarrow> str \<Rightarrow> bool" where
  "startswith s p = (take (length p) s = p)"

text \<open>\<^verbatim>\<open>s.replace(c, '')\<close> for a one-character \<open>c\<close>.\<close>

definition remove_char :: "nat \<Rightarrow> str \<Rightarrow> str" where
  "remove_char c s = filter (\<lambda>d. d \<noteq> c) s"

text \<open>
  The database on the code points below 256, for the examples: the letters, the
  decimal digits and the case mappings of Basic Latin and Latin-1, where a mapping
  depends on the character alone. Above 255 it has no letter, no digit and no case:
  the examples use it on text below 256 only. The theorems hold for every database.
\<close>

definition latin1_isalpha :: "nat \<Rightarrow> bool" where
  "latin1_isalpha c =
     ((0x41 \<le> c \<and> c \<le> 0x5A) \<or> (0x61 \<le> c \<and> c \<le> 0x7A) \<or> c = 0xAA \<or> c = 0xB5 \<or> c = 0xBA
      \<or> (0xC0 \<le> c \<and> c \<le> 0xD6) \<or> (0xD8 \<le> c \<and> c \<le> 0xF6) \<or> (0xF8 \<le> c \<and> c \<le> 0xFF))"

definition latin1_upper :: "nat \<Rightarrow> str" where
  "latin1_upper c =
     (if (0x61 \<le> c \<and> c \<le> 0x7A) \<or> (0xE0 \<le> c \<and> c \<le> 0xFE \<and> c \<noteq> 0xF7) then [c - 0x20]
      else if c = 0xB5 then [0x39C]
      else if c = 0xDF then [0x53, 0x53]
      else if c = 0xFF then [0x178]
      else [c])"

definition latin1_lower :: "nat \<Rightarrow> str" where
  "latin1_lower c =
     (if (0x41 \<le> c \<and> c \<le> 0x5A) \<or> (0xC0 \<le> c \<and> c \<le> 0xDE \<and> c \<noteq> 0xD7) then [c + 0x20]
      else [c])"

definition latin1 :: unicode where
  "latin1 = \<lparr>isdecimal = (\<lambda>c. 0x30 \<le> c \<and> c \<le> 0x39),
             isalpha = latin1_isalpha,
             upper = (\<lambda>s. concat (map latin1_upper s)),
             lower = (\<lambda>s. concat (map latin1_lower s))\<rparr>"

section \<open>Regular expressions of the eligibility filter\<close>

text \<open>
  The three patterns of \<^verbatim>\<open>should_translate_text\<close> have the shape \<^verbatim>\<open>^R$\<close> and are
  used with \<^verbatim>\<open>re.match\<close>. \<open>R\<close> is kept as data, a symbol being a class of code points,
  and matched with derivatives; \<^verbatim>\<open>$\<close> accepts the end of the string and the position
  before one final newline.
\<close>

datatype regex =
    Void
  | Eps
  | Sym "nat \<Rightarrow> bool"
  | Seq regex regex
  | Alt regex regex
  | Star regex

fun nullable :: "regex \<Rightarrow> bool" where
  "nullable Void = False"
| "nullable Eps = True"
| "nullable (Sym p) = False"
| "nullable (Seq r s) = (nullable r \<and> nullable s)"
| "nullable (Alt r s) = (nullable r \<or> nullable s)"
| "nullable (Star r) = True"

fun deriv :: "nat \<Rightarrow> regex \<Rightarrow> regex" where
  "deriv c Void = Void"
| "deriv c Eps = Void"
| "deriv c (Sym p) = (if p c then Eps else Void)"
| "deriv c (Seq r s) =
     (if nullable r then Alt (Seq (deriv c r) s) (deriv c s) else Seq (deriv c r) s)"
| "deriv c (Alt r s) = Alt (deriv c r) (deriv c s)"
| "deriv c (Star r) = Seq (deriv c r) (Star r)"

fun matches :: "regex \<Rightarrow> str \<Rightarrow> bool" where
  "matches r [] = nullable r"
| "matches r (c # cs) = matches (deriv c r) cs"

definition Plus :: "regex \<Rightarrow> regex" where
  "Plus r = Seq r (Star r)"

definition Opt :: "regex \<Rightarrow> regex" where
  "Opt r = Alt r Eps"

definition re_match :: "regex \<Rightarrow> str \<Rightarrow> bool" where
  "re_match r s = (matches r s \<or> (s \<noteq> [] \<and> last s = 0x0A \<and> matches r (butlast s)))"

text \<open>The character \<open>c\<close> itself, and the range \<^verbatim>\<open>[a-b]\<close>.\<close>

definition single_char :: "char \<Rightarrow> nat \<Rightarrow> bool" where
  "single_char a c = (c = of_char a)"

definition char_range :: "char \<Rightarrow> char \<Rightarrow> nat \<Rightarrow> bool" where
  "char_range a b c = (of_char a \<le> c \<and> c \<le> of_char b)"

text \<open>\<^verbatim>\<open>^\d+$\<close>\<close>

definition pure_number :: "unicode \<Rightarrow> regex" where
  "pure_number db = Plus (Sym (isdecimal db))"

text \<open>\<^verbatim>\<open>^\$\d+([,\d]*\.?\d*)?$\<close>\<close>

definition currency :: "unicode \<Rightarrow> regex" where
  "currency db =
     Seq (Sym (single_char CHR ''$''))
       (Seq (Plus (Sym (isdecimal db)))
          (Opt (Seq (Star (Sym (\<lambda>c. single_char CHR '','' c \<or> isdecimal db c)))
                  (Seq (Opt (Sym (single_char CHR ''.''))) (Star (Sym (isdecimal db)))))))"

text \<open>\<^verbatim>\<open>^[A-Z0-9]{3,}$\<close>\<close>

definition code_char :: regex where
  "code_char = Sym (\<lambda>c. char_range CHR ''A'' CHR ''Z'' c \<or> char_range CHR ''0'' CHR ''9'' c)"

definition code_token :: regex where
  "code_token = Seq code_char (Seq code_char (Seq code_char (Star code_char)))"

section \<open>Translation policy\<close>

definition abbreviations :: "str list" where
  "abbreviations =
     [lit ''N/A'', lit ''MRI'', lit ''MRA'', lit ''PET'', lit ''CT'', lit ''PCP'', lit ''EOC'']"

definition should_translate_text :: "unicode \<Rightarrow> str \<Rightarrow> bool" where
  "should_translate_text db text0 =
     (let text = strip text0 in
      if text = [] then False
      else if re_match (pure_number db) text then False
      else if re_match (currency db) text then False
      else if re_match code_token text then False
      else if length text \<le> 2 then False
      else if upper db text \<in> set abbreviations then False
      else if length (filter (isalpha db) text) < 3 then False
      else True)"

text \<open>
  The glossary of \<^verbatim>\<open>translate_text_conservative\<close>. The values with characters outside
  ASCII are given with the code points that the source file has: \<open>0x221A\<close>, followed by
  \<open>0xB1\<close>, \<open>0xB0\<close>, \<open>0xA9\<close> or \<open>0x2265\<close>.
\<close>

definition common_terms :: "(str \<times> str) list" where
  "common_terms =
     [(lit ''copay'', lit ''copago''),
      (lit ''deductible'', lit ''deducible''),
      (lit ''premium'', lit ''prima''),
      (lit ''plan'', lit ''plan''),
      (lit ''year'', lit ''a'' @ [0x221A, 0xB1] @ lit ''o''),
      (lit ''services'', lit ''servicios''),
      (lit ''coverage'', lit ''cobertura''),
      (lit ''benefits'', lit ''beneficios''),
      (lit ''maximum'', lit ''m'' @ [0x221A, 0xB0] @ lit ''ximo''),
      (lit ''monthly'', lit ''mensual''),
      (lit ''medical'', lit ''m'' @ [0x221A, 0xA9] @ lit ''dico''),
      (lit ''hospital'', lit ''hospital''),
      (lit ''inpatient'', lit ''hospitalizaci'' @ [0x221A, 0x2265] @ lit ''n''),
      (lit ''outpatient'', lit ''ambulatorio'')]"

text \<open>
  The language model is the only collaborator of the policy. \<open>llm k prompt\<close> is what
  the \<open>k\<close>-th call of \<^verbatim>\<open>llm.invoke\<close> within one translation does: it raises, or it
  returns a response with the given content. The effects of a translation are its
  calls of the model and its sleeps, in order.
\<close>

datatype 'a outcome = Raised | Returned 'a

datatype effect = Invoke str | Sleep nat

type_synonym llm = "nat \<Rightarrow> str \<Rightarrow> str outcome"

definition newline :: str where
  "newline = [0x0A]"

definition make_prompt :: "str \<Rightarrow> str \<Rightarrow> str" where
  "make_prompt target_lang text =
     lit ''Translate this English text to '' @ target_lang
       @ lit ''. This is from a medical insurance document.'' @ newline
     @ newline
     @ lit ''RULES:'' @ newline
     @ lit ''1. Keep ALL numbers and currency exactly as they are'' @ newline
     @ lit ''2. Keep ALL codes unchanged: H5619136002, N/A, etc.'' @ newline
     @ lit ''3. Keep proper nouns: Apple Health, Medicaid, Medicare Part A, Part B, Part D''
       @ newline
     @ lit ''4. Keep abbreviations: MRI, CT, PET, MRA, PCP, EOC'' @ newline
     @ lit ''5. Use standard medical/insurance Spanish terminology'' @ newline
     @ lit ''6. Keep formatting and punctuation exactly the same'' @ newline
     @ lit ''7. Return ONLY the translation, no explanations'' @ newline
     @ newline
     @ lit ''Text: '' @ [0x22] @ text @ [0x22] @ newline
     @ newline
     @ lit ''Translation:''"

definition prefixes :: "str \<Rightarrow> str list" where
  "prefixes target_lang =
     [lit ''Translation:'',
      lit ''Traducci'' @ [0x221A, 0x2265] @ lit ''n:'',
      target_lang @ lit '':'',
      lit ''Spanish:'']"

fun clean_prefixes :: "str list \<Rightarrow> str \<Rightarrow> str" where
  "clean_prefixes [] translated = translated"
| "clean_prefixes (prefix # ps) translated =
     clean_prefixes ps
       (if startswith translated prefix then strip (drop (length prefix) translated)
        else translated)"

definition clean_response :: "str \<Rightarrow> str \<Rightarrow> str" where
  "clean_response target_lang content =
     clean_prefixes (prefixes target_lang)
       (remove_char 0x27 (remove_char 0x22 (strip content)))"

text \<open>
  The loop \<^verbatim>\<open>for attempt in range(retries)\<close>, over the attempts still to make. It
  gives the returned text and the effects.
\<close>

fun attempts :: "llm \<Rightarrow> str \<Rightarrow> str \<Rightarrow> int \<Rightarrow> nat list \<Rightarrow> str \<times> effect list" where
  "attempts llm text target_lang retries [] = (text, [])"
| "attempts llm text target_lang retries (attempt # rest) =
     (case llm attempt (make_prompt target_lang text) of
        Returned content \<Rightarrow>
          (clean_response target_lang content, [Invoke (make_prompt target_lang text)])
      | Raised \<Rightarrow>
          (let pause = (if int attempt < retries - 1 then [Sleep (2 ^ attempt)] else []);
               (res, effs) = attempts llm text target_lang retries rest
           in (res, Invoke (make_prompt target_lang text) # pause @ effs)))"

definition py_range :: "int \<Rightarrow> nat list" where
  "py_range n = [0..<nat n]"

definition translate_text_conservative ::
    "unicode \<Rightarrow> llm \<Rightarrow> str \<Rightarrow> str \<Rightarrow> int \<Rightarrow> str \<times> effect list" where
  "translate_text_conservative db llm text target_lang retries =
     (if \<not> should_translate_text db text then (text, [])
      else
        case (if length (split text) \<le> 2 then map_of common_terms (strip (lower db text))
              else None) of
          Some term \<Rightarrow> (term, [])
        | None \<Rightarrow> attempts llm text target_lang retries (py_range retries))"

text \<open>
  The effects of \<open>n\<close> failed attempts that are each followed by a pause: the \<open>k\<close>-th
  call of the model, then a sleep of \<open>2 ^ k\<close> seconds.
\<close>

definition backoff :: "str \<Rightarrow> nat \<Rightarrow> effect list" where
  "backoff prompt n = concat (map (\<lambda>k. [Invoke prompt, Sleep (2 ^ k)]) [0..<n])"

section \<open>Fonts and geometry\<close>

text \<open>
  Coordinates and font sizes are Python floats; they are modelled as real numbers, so
  the arithmetic below is exact where the program rounds.
\<close>

type_synonym bbox = "real \<times> real \<times> real \<times> real"

type_synonym rgb = "real \<times> real \<times> real"

datatype rect = Rect (rect_x0: real) (rect_y0: real) (rect_x1: real) (rect_y1: real)

text \<open>The properties \<^verbatim>\<open>width\<close> and \<^verbatim>\<open>height\<close> of \<^verbatim>\<open>fitz.Rect\<close>.\<close>

definition width :: "rect \<Rightarrow> real" where
  "width r = max 0 (rect_x1 r - rect_x0 r)"

definition height :: "rect \<Rightarrow> real" where
  "height r = max 0 (rect_y1 r - rect_y0 r)"

text \<open>
  The value of a span's \<^verbatim>\<open>color\<close> entry: an integer, a float, a sequence, or anything
  else.
\<close>

datatype color_value = IntColor int | FloatColor real | SeqColor "real list" | OtherColor

record span =
  span_text :: str
  span_bbox :: bbox
  span_font :: "str option"
  span_flags :: "int option"
  span_size :: "real option"
  span_color :: "color_value option"

record font_info =
  fi_font :: str
  fi_size :: real
  fi_color :: color_value
  fi_flags :: int

text \<open>\<^verbatim>\<open>sub in s\<close> on strings.\<close>

definition contains :: "str \<Rightarrow> str \<Rightarrow> bool" where
  "contains sub s = list_ex (\<lambda>i. take (length sub) (drop i s) = sub) [0..<Suc (length s)]"

definition get_font_info :: "unicode \<Rightarrow> span \<Rightarrow> font_info" where
  "get_font_info db sp =
     (let font_name = lower db (case span_font sp of None \<Rightarrow> [] | Some f \<Rightarrow> f);
          flags = (case span_flags sp of None \<Rightarrow> 0 | Some f \<Rightarrow> f);
          size = (case span_size sp of None \<Rightarrow> 12 | Some z \<Rightarrow> z);
          is_bold = (contains (lit ''bold'') font_name \<or> (flags AND 16) \<noteq> 0);
          is_italic = (contains (lit ''italic'') font_name \<or> (flags AND 2) \<noteq> 0);
          font = (if is_bold \<and> is_italic then (lit ''helv-boldoblique'')
                  else if is_bold then (lit ''helv-bold'')
                  else if is_italic then (lit ''helv-oblique'')
                  else (lit ''helv''))
      in \<lparr>fi_font = font,
          fi_size = max 6 (min size 24),
          fi_color = (case span_color sp of None \<Rightarrow> IntColor 0 | Some c \<Rightarrow> c),
          fi_flags = flags\<rparr>)"

definition calculate_text_dimensions :: "str \<Rightarrow> real \<Rightarrow> real \<times> real" where
  "calculate_text_dimensions text font_size =
     (let avg_char_width = font_size * (6 / 10);
          text_width = real (length text) * avg_char_width;
          text_height = font_size * (12 / 10)
      in (text_width, text_height))"

definition create_better_redaction_rect :: "bbox \<Rightarrow> str \<Rightarrow> real \<Rightarrow> rect" where
  "create_better_redaction_rect bbox text font_size =
     (case bbox of (x0, y0, x1, y1) \<Rightarrow>
        (case calculate_text_dimensions text font_size of (text_width, text_height) \<Rightarrow>
           (let width = max (x1 - x0) text_width;
                height = max (y1 - y0) text_height;
                padding = 1
            in Rect (x0 - padding) (y0 - padding) (x0 + width + padding)
                 (y0 + height + padding))))"

section \<open>The page as a log of drawing operations\<close>

text \<open>
  The program acts on a page through four operations of the PDF library. A page is
  modelled by the operations attempted on it so far, in order. What an operation does
  is given by a renderer: after a given history it raises, or returns a number (the
  fit result of \<^verbatim>\<open>insert_textbox\<close>, the line count of \<^verbatim>\<open>insert_text\<close>; the number is not
  used for the other two). The text operations record rectangle or point, text, font
  name, font size and colour.
\<close>

datatype event =
    AddRedactAnnot rect rgb
  | ApplyRedactions
  | InsertTextbox rect str str real rgb
  | InsertText "real \<times> real" str str real rgb

type_synonym renderer = "event list \<Rightarrow> event \<Rightarrow> real outcome"

section \<open>Reinsertion\<close>

record strategy =
  s_font :: str
  s_size :: real
  s_rect :: rect

text \<open>The rectangle of the span, after \<^verbatim>\<open># Ensure minimum rect size\<close>.\<close>

definition original_rect :: "bbox \<Rightarrow> str \<Rightarrow> rect" where
  "original_rect bbox text =
     (case bbox of (x0, y0, x1, y1) \<Rightarrow>
        (let r = Rect x0 y0 x1 y1;
             r = (if width r < 10
                  then Rect (rect_x0 r) (rect_y0 r)
                         (rect_x0 r + max 50 (real (length text) * 8)) (rect_y1 r)
                  else r);
             r = (if height r < 8
                  then Rect (rect_x0 r) (rect_y0 r) (rect_x1 r) (rect_y0 r + 12)
                  else r)
         in r))"

definition expanded_rect :: "bbox \<Rightarrow> rect" where
  "expanded_rect bbox = (case bbox of (x0, y0, x1, y1) \<Rightarrow> Rect x0 y0 (x1 + 50) (y1 + 5))"

definition color_rgb :: "color_value \<Rightarrow> rgb" where
  "color_rgb color =
     (case color of
        IntColor n \<Rightarrow> (if n = 0 then (0, 0, 0) else (0, 0, 0))
      | FloatColor x \<Rightarrow> (if x = 0 then (0, 0, 0) else (0, 0, 0))
      | SeqColor cs \<Rightarrow> (0, 0, 0)
      | OtherColor \<Rightarrow> (0, 0, 0))"

definition strategies :: "bbox \<Rightarrow> str \<Rightarrow> font_info \<Rightarrow> strategy list" where
  "strategies bbox text font_info =
     (let font_name = fi_font font_info;
          original_size = fi_size font_info;
          orig = original_rect bbox text;
          expanded = expanded_rect bbox
      in [\<lparr>s_font = font_name, s_size = original_size, s_rect = orig\<rparr>,
          \<lparr>s_font = font_name, s_size = original_size * (9 / 10), s_rect = orig\<rparr>,
          \<lparr>s_font = font_name, s_size = original_size * (8 / 10), s_rect = orig\<rparr>,
          \<lparr>s_font = lit ''helv'', s_size = original_size, s_rect = orig\<rparr>,
          \<lparr>s_font = lit ''helv'', s_size = original_size * (9 / 10), s_rect = orig\<rparr>,
          \<lparr>s_font = lit ''helv'', s_size = 8, s_rect = orig\<rparr>,
          \<lparr>s_font = font_name, s_size = original_size, s_rect = expanded\<rparr>,
          \<lparr>s_font = lit ''helv'', s_size = original_size, s_rect = expanded\<rparr>,
          \<lparr>s_font = lit ''helv'', s_size = 8, s_rect = expanded\<rparr>])"

definition clamp_size :: "real \<Rightarrow> real" where
  "clamp_size sz = (if sz < 6 then 6 else if sz > 20 then 20 else sz)"

definition textbox_call :: "str \<Rightarrow> rgb \<Rightarrow> strategy \<Rightarrow> event" where
  "textbox_call text color strategy =
     InsertTextbox (s_rect strategy) text (s_font strategy) (clamp_size (s_size strategy)) color"

text \<open>
  The loop over the strategies. It gives whether a strategy succeeded, and the
  operations attempted, in order.
\<close>

fun try_strategies ::
    "renderer \<Rightarrow> event list \<Rightarrow> str \<Rightarrow> rgb \<Rightarrow> strategy list \<Rightarrow> bool \<times> event list" where
  "try_strategies draw page text color [] = (False, [])"
| "try_strategies draw page text color (strategy # rest) =
     (let call = textbox_call text color strategy in
      case draw page call of
        Returned result \<Rightarrow>
          (if result \<ge> 0 then (True, [call])
           else (case try_strategies draw (page @ [call]) text color rest of
                   (ok, calls) \<Rightarrow> (ok, call # calls)))
      | Raised \<Rightarrow>
          (case try_strategies draw (page @ [call]) text color rest of
             (ok, calls) \<Rightarrow> (ok, call # calls)))"

definition point_call :: "bbox \<Rightarrow> str \<Rightarrow> event" where
  "point_call bbox text =
     (case bbox of (x0, y0, x1, y1) \<Rightarrow> InsertText (x0, y0 + 10) text (lit ''helv'') 8 (0, 0, 0))"

definition insert_text_with_fallbacks ::
    "renderer \<Rightarrow> event list \<Rightarrow> bbox \<Rightarrow> str \<Rightarrow> font_info \<Rightarrow> bool \<times> event list" where
  "insert_text_with_fallbacks draw page bbox text font_info =
     (if strip text = [] then (False, [])
      else
        case try_strategies draw page text (color_rgb (fi_color font_info))
               (strategies bbox text font_info) of
          (True, calls) \<Rightarrow> (True, calls)
        | (False, calls) \<Rightarrow>
            (case draw (page @ calls) (point_call bbox text) of
               Returned result \<Rightarrow> (result \<ge> 0, calls @ [point_call bbox text])
             | Raised \<Rightarrow> (False, calls @ [point_call bbox text])))"

section \<open>Redaction and reinsertion on a page\<close>

record task =
  t_original :: str
  t_translated :: str
  t_bbox :: bbox
  t_font_info :: font_info

definition redaction_call :: "task \<Rightarrow> event" where
  "redaction_call task =
     AddRedactAnnot
       (create_better_redaction_rect (t_bbox task) (t_original task)
          (fi_size (t_font_info task)))
       (1, 1, 1)"

text \<open>
  The first loop over the tasks. An exception of the library leaves the loop and the
  page (the flag is then false).
\<close>

fun add_redactions :: "renderer \<Rightarrow> event list \<Rightarrow> task list \<Rightarrow> bool \<times> event list" where
  "add_redactions draw page [] = (True, [])"
| "add_redactions draw page (task # rest) =
     (case draw page (redaction_call task) of
        Raised \<Rightarrow> (False, [redaction_call task])
      | Returned annot \<Rightarrow>
          (case add_redactions draw (page @ [redaction_call task]) rest of
             (ok, calls) \<Rightarrow> (ok, redaction_call task # calls)))"

text \<open>The second loop, with the count of successful insertions.\<close>

fun insert_all :: "renderer \<Rightarrow> event list \<Rightarrow> task list \<Rightarrow> nat \<times> event list" where
  "insert_all draw page [] = (0, [])"
| "insert_all draw page (task # rest) =
     (case insert_text_with_fallbacks draw page (t_bbox task) (t_translated task)
             (t_font_info task) of
        (ok, calls) \<Rightarrow>
          (case insert_all draw (page @ calls) rest of
             (n, calls') \<Rightarrow> ((if ok then 1 else 0) + n, calls @ calls')))"

datatype page_result = Aborted | Inserted nat

text \<open>
  The part of \<^verbatim>\<open>translate_pdf_layout_preserving\<close> that follows the construction of
  \<^verbatim>\<open>translation_tasks\<close> for one page: the redactions, their application, the
  insertions. An exception on the way is caught by the handler of the page.
\<close>

definition redact_and_insert ::
    "renderer \<Rightarrow> event list \<Rightarrow> task list \<Rightarrow> page_result \<times> event list" where
  "redact_and_insert draw page tasks =
     (case add_redactions draw page tasks of
        (False, calls) \<Rightarrow> (Aborted, calls)
      | (True, calls) \<Rightarrow>
          (case draw (page @ calls) ApplyRedactions of
             Raised \<Rightarrow> (Aborted, calls @ [ApplyRedactions])
           | Returned applied \<Rightarrow>
               (case insert_all draw (page @ calls @ [ApplyRedactions]) tasks of
                  (n, calls') \<Rightarrow> (Inserted n, calls @ ApplyRedactions # calls'))))"

definition is_insertion :: "event \<Rightarrow> bool" where
  "is_insertion e =
     (case e of InsertTextbox r t f z c \<Rightarrow> True | InsertText p t f z c \<Rightarrow> True | _ \<Rightarrow> False)"

definition event_color :: "event \<Rightarrow> rgb option" where
  "event_color e =
     (case e of InsertTextbox r t f z c \<Rightarrow> Some c | InsertText p t f z c \<Rightarrow> Some c
      | _ \<Rightarrow> None)"

text \<open>
  An attempted operation succeeds when the library returns a non-negative number for
  it; it fails when the library raises or returns a negative number.
\<close>

definition fits :: "renderer \<Rightarrow> event list \<Rightarrow> event \<Rightarrow> bool" where
  "fits draw page call =
     (case draw page call of Returned result \<Rightarrow> result \<ge> 0 | Raised \<Rightarrow> False)"

section \<open>Sample pages\<close>

text \<open>
  Tasks as the page loop builds them for the spans \<^verbatim>\<open>Copay\<close> and \<^verbatim>\<open>Plan\<close> (translated by
  the glossary) and for a span with a typographic apostrophe, \<open>0x2019\<close>, and renderers
  for the examples: one whose text boxes never fit, with a point
  insertion that works or raises, and one that knows only the font \<^verbatim>\<open>helv\<close>.
\<close>

definition copay_font :: font_info where
  "copay_font = \<lparr>fi_font = lit ''helv-bold'', fi_size = 12, fi_color = IntColor 16711680,
                 fi_flags = 16\<rparr>"

definition copay_task :: task where
  "copay_task = \<lparr>t_original = lit ''Copay'', t_translated = lit ''copago'',
                 t_bbox = (10, 10, 40, 22), t_font_info = copay_font\<rparr>"

definition plan_task :: task where
  "plan_task = \<lparr>t_original = lit ''Plan'', t_translated = lit ''plan'',
                t_bbox = (10, 30, 34, 42), t_font_info = copay_font\<rparr>"

definition members_plan_task :: task where
  "members_plan_task =
     \<lparr>t_original = lit ''Member'' @ [0x2019] @ lit ''s plan'',
      t_translated = lit ''Plan del miembro'', t_bbox = (10, 10, 40, 22),
      t_font_info = copay_font\<rparr>"

definition boxes_never_fit :: renderer where
  "boxes_never_fit page call =
     (case call of InsertTextbox r t f z c \<Rightarrow> Returned (- 1) | _ \<Rightarrow> Returned 1)"

definition boxes_never_fit_point_raises :: renderer where
  "boxes_never_fit_point_raises page call =
     (case call of InsertTextbox r t f z c \<Rightarrow> Returned (- 1)
      | InsertText p t f z c \<Rightarrow> Raised
      | _ \<Rightarrow> Returned 1)"

definition only_helv :: renderer where
  "only_helv page call =
     (case call of InsertTextbox r t f z c \<Rightarrow> (if f = lit ''helv'' then Returned 0 else Raised)
      | _ \<Rightarrow> Returned 1)"

section \<open>Background colour\<close>

text \<open>
  The raster of a page: \<^verbatim>\<open>page.get_pixmap\<close> at a zoom raises or returns a pixmap, and
  \<^verbatim>\<open>pix.pixel(x, y)\<close> raises (outside the image) or returns the channels of the pixel,
  each a byte.
\<close>

record pixmap =
  pix_width :: int
  pix_height :: int
  pix_pixel :: "int \<Rightarrow> int \<Rightarrow> 8 word list outcome"

type_synonym raster = "int \<Rightarrow> pixmap outcome"

text \<open>\<^verbatim>\<open>int(v)\<close> on a float: truncation towards zero.\<close>

definition py_int :: "real \<Rightarrow> int" where
  "py_int v = (if 0 \<le> v then \<lfloor>v\<rfloor> else \<lceil>v\<rceil>)"

text \<open>
  The two roundings of a channel. \<^verbatim>\<open>round(c / 255, 2)\<close> is given in hundredths: it is
  the hundredth nearest to \<open>c / 255\<close>, which is never half-way between two. \<^verbatim>\<open>round(h, 1)\<close>
  of such a float is given in tenths: the nearest tenth, and for the ten values that
  end in 5 the tenth that Python returns for the binary float (0.25 and 0.75 are exact
  and go to the even tenth; the others go to the side of their binary value).
\<close>

definition round_hundredths :: "8 word \<Rightarrow> int" where
  "round_hundredths c = (200 * int (unat c) + 255) div 510"

definition round_tenths :: "int \<Rightarrow> int" where
  "round_tenths h =
     (case map_of [(5, 1), (15, 1), (25, 2), (35, 3), (45, 5), (55, 6), (65, 7), (75, 8),
                   (85, 8), (95, 9)] h of
        Some t \<Rightarrow> t
      | None \<Rightarrow> (h + 5) div 10)"

type_synonym sample = "int \<times> int \<times> int"

definition round_color :: "sample \<Rightarrow> sample" where
  "round_color color =
     (case color of (r, g, b) \<Rightarrow> (round_tenths r, round_tenths g, round_tenths b))"

definition tenths_rgb :: "sample \<Rightarrow> rgb" where
  "tenths_rgb color =
     (case color of (r, g, b) \<Rightarrow> (real_of_int r / 10, real_of_int g / 10, real_of_int b / 10))"

text \<open>
  The body of the inner \<^verbatim>\<open>try\<close>: the colour of one point in hundredths, or nothing when
  the pixel cannot be read or has fewer than three channels.
\<close>

definition sample_color :: "pixmap \<Rightarrow> int \<Rightarrow> int \<Rightarrow> sample option" where
  "sample_color pix x y =
     (case pix_pixel pix x y of
        Raised \<Rightarrow> None
      | Returned channels \<Rightarrow>
          (case channels of
             r # g # b # rest \<Rightarrow>
               Some (round_hundredths r, round_hundredths g, round_hundredths b)
           | _ \<Rightarrow> None))"

text \<open>The sampling loop of \<^verbatim>\<open>v3.py\<close>.\<close>

fun sample_all_v3 :: "pixmap \<Rightarrow> (int \<times> int) list \<Rightarrow> sample list" where
  "sample_all_v3 pix [] = []"
| "sample_all_v3 pix ((x, y) # rest) =
     (case sample_color pix x y of
        None \<Rightarrow> sample_all_v3 pix rest
      | Some color \<Rightarrow> color # sample_all_v3 pix rest)"

text \<open>The sampling loop of \<^verbatim>\<open>v4.py\<close>, which reads a pixel only inside the raster.\<close>

fun sample_all_v4 :: "pixmap \<Rightarrow> (int \<times> int) list \<Rightarrow> sample list" where
  "sample_all_v4 pix [] = []"
| "sample_all_v4 pix ((x, y) # rest) =
     (if 0 \<le> x \<and> x < pix_width pix \<and> 0 \<le> y \<and> y < pix_height pix
      then (case sample_color pix x y of
              None \<Rightarrow> sample_all_v4 pix rest
            | Some color \<Rightarrow> color # sample_all_v4 pix rest)
      else sample_all_v4 pix rest)"

definition sample_coords_v3 :: "pixmap \<Rightarrow> bbox \<Rightarrow> int \<Rightarrow> (int \<times> int) list" where
  "sample_coords_v3 pix bbox zoom =
     (case bbox of (bx0, by0, bx1, by1) \<Rightarrow>
        (let x0 = py_int (bx0 * real_of_int zoom);
             y0 = py_int (by0 * real_of_int zoom);
             x1 = py_int (bx1 * real_of_int zoom);
             y1 = py_int (by1 * real_of_int zoom);
             margin = 4 * zoom
         in [(max 0 (x0 - margin), max 0 (y0 - margin)),
             (min (pix_width pix - 1) (x1 + margin), max 0 (y0 - margin)),
             (max 0 (x0 - margin), min (pix_height pix - 1) (y1 + margin)),
             (min (pix_width pix - 1) (x1 + margin), min (pix_height pix - 1) (y1 + margin)),
             ((x0 + x1) div 2, (y0 + y1) div 2)]))"

definition sample_coords_v4 :: "bbox \<Rightarrow> int \<Rightarrow> (int \<times> int) list" where
  "sample_coords_v4 bbox zoom =
     (case bbox of (bx0, by0, bx1, by1) \<Rightarrow>
        (let x0 = py_int (bx0 * real_of_int zoom);
             y0 = py_int (by0 * real_of_int zoom);
             x1 = py_int (bx1 * real_of_int zoom);
             y1 = py_int (by1 * real_of_int zoom)
         in [((x0 + x1) div 2, (y0 + y1) div 2),
             (x0 + 5, y0 + 5), (x1 - 5, y0 + 5),
             (x0 + 5, y1 - 5), (x1 - 5, y1 - 5)]))"

text \<open>
  \<^verbatim>\<open>collections.Counter\<close> of a list: a dictionary from the elements to their counts, in
  the order of insertion. \<^verbatim>\<open>most_common(1)\<close> is the maximum of the items by count, the
  first one among equals.
\<close>

fun counter_add :: "'a \<Rightarrow> ('a \<times> nat) list \<Rightarrow> ('a \<times> nat) list" where
  "counter_add x [] = [(x, 1)]"
| "counter_add x ((k, n) # items) =
     (if k = x then (k, Suc n) # items else (k, n) # counter_add x items)"

definition Counter :: "'a list \<Rightarrow> ('a \<times> nat) list" where
  "Counter xs = foldl (\<lambda>items x. counter_add x items) [] xs"

fun first_max :: "'a \<times> nat \<Rightarrow> ('a \<times> nat) list \<Rightarrow> 'a \<times> nat" where
  "first_max best [] = best"
| "first_max best (item # items) =
     first_max (if snd best < snd item then item else best) items"

definition most_common_1 :: "('a \<times> nat) list \<Rightarrow> ('a \<times> nat) list" where
  "most_common_1 items = (case items of [] \<Rightarrow> [] | item # rest \<Rightarrow> [first_max item rest])"

text \<open>
  The colours at the sample points of each version, in tenths and in sample order:
  the colours that the vote is taken over. There is none when the page cannot be
  rendered.
\<close>

definition rounded_colors_v3 :: "raster \<Rightarrow> bbox \<Rightarrow> int \<Rightarrow> sample list" where
  "rounded_colors_v3 page bbox zoom =
     (case page zoom of
        Raised \<Rightarrow> []
      | Returned pix \<Rightarrow> map round_color (sample_all_v3 pix (sample_coords_v3 pix bbox zoom)))"

definition rounded_colors_v4 :: "raster \<Rightarrow> bbox \<Rightarrow> int \<Rightarrow> sample list" where
  "rounded_colors_v4 page bbox zoom =
     (case page zoom of
        Raised \<Rightarrow> []
      | Returned pix \<Rightarrow> map round_color (sample_all_v4 pix (sample_coords_v4 bbox zoom)))"

text \<open>
  The two versions use the names \<^verbatim>\<open>fitz\<close> and \<^verbatim>\<open>Counter\<close>, which are neither local nor
  built in: Python looks them up among the globals of the module when the line runs,
  and raises \<^verbatim>\<open>NameError\<close> for a name that the module does not bind. The globals of a
  module are the names it imports, assigns or defines at top level. \<^verbatim>\<open>v3.py\<close> has no
  import statement and consists of six function definitions and the script guard.
\<close>

definition v3_globals :: "string list" where
  "v3_globals =
     [''get_font_type'', ''get_pymupdf_font'', ''convert_color_to_rgb'',
      ''detect_background_color'', ''is_dark_color'', ''translate_pdf'']"

definition v4_globals :: "string list" where
  "v4_globals =
     [''fitz'', ''OpenAI'', ''time'', ''os'', ''Counter'', ''traceback'',
      ''Tuple'', ''List'', ''Dict'', ''Any'', ''client'',
      ''translate_text'', ''get_font_type'', ''get_pymupdf_font'', ''convert_color_to_rgb'',
      ''detect_background_color'', ''is_dark_color'', ''infer_rotation'',
      ''shrink_font_to_fit'', ''translate_pdf'', ''main'']"

definition bound :: "string list \<Rightarrow> string \<Rightarrow> bool" where
  "bound globals name = (name \<in> set globals)"

text \<open>
  The body of the outer \<^verbatim>\<open>try\<close> after the sampling loop, common to both versions up to
  the globals; indexing an empty \<^verbatim>\<open>most_common\<close> would raise.
\<close>

definition vote :: "string list \<Rightarrow> sample list \<Rightarrow> rgb outcome" where
  "vote globals colors =
     (if colors \<noteq> []
      then (let rounded_colors = map round_color colors in
            if \<not> bound globals ''Counter'' then Raised
            else (case most_common_1 (Counter rounded_colors) of
                    [] \<Rightarrow> Raised
                  | (color, n) # rest \<Rightarrow> Returned (tenths_rgb color)))
      else Returned (1, 1, 1))"

text \<open>
  The function of \<^verbatim>\<open>v3.py\<close>. Its first statement needs \<^verbatim>\<open>fitz\<close>. The handler of the outer
  \<^verbatim>\<open>try\<close> returns white.
\<close>

definition detect_background_color_v3 :: "raster \<Rightarrow> bbox \<Rightarrow> int \<Rightarrow> rgb outcome" where
  "detect_background_color_v3 page bbox zoom =
     (case (if \<not> bound v3_globals ''fitz'' then Raised
            else case page zoom of
                   Raised \<Rightarrow> Raised
                 | Returned pix \<Rightarrow>
                     vote v3_globals (sample_all_v3 pix (sample_coords_v3 pix bbox zoom))) of
        Raised \<Rightarrow> Returned (1, 1, 1)
      | Returned color \<Rightarrow> Returned color)"

text \<open>The function of \<^verbatim>\<open>v4.py\<close>, in a module that imports both names.\<close>

definition detect_background_color_v4 :: "raster \<Rightarrow> bbox \<Rightarrow> int \<Rightarrow> rgb outcome" where
  "detect_background_color_v4 page bbox zoom =
     (case (if \<not> bound v4_globals ''fitz'' then Raised
            else case page zoom of
                   Raised \<Rightarrow> Raised
                 | Returned pix \<Rightarrow>
                     vote v4_globals (sample_all_v4 pix (sample_coords_v4 bbox zoom))) of
        Raised \<Rightarrow> Returned (1, 1, 1)
      | Returned color \<Rightarrow> Returned color)"

text \<open>
  What the specification asks of the vote: the first colour, in sample order, that no
  other colour outnumbers.
\<close>

definition first_most_frequent :: "'a list \<Rightarrow> 'a option" where
  "first_most_frequent xs = find (\<lambda>x. \<forall>y \<in> set xs. count_list xs y \<le> count_list xs x) xs"

text \<open>The distinct elements of a list in the order of their first occurrence.\<close>

definition firsts :: "'a list \<Rightarrow> 'a list" where
  "firsts xs = rev (remdups (rev xs))"

text \<open>A colour in tenths has each channel among 0, 1, ..., 10.\<close>

definition in_tenths :: "sample \<Rightarrow> bool" where
  "in_tenths color =
     (case color of (r, g, b) \<Rightarrow> 0 \<le> r \<and> r \<le> 10 \<and> 0 \<le> g \<and> g \<le> 10 \<and> 0 \<le> b \<and> b \<le> 10)"

text \<open>
  A page of 100 by 100 points for the examples: black on the left half, grey (channel
  114) up to 95, and white beyond.
\<close>

definition banded_page :: raster where
  "banded_page zoom =
     Returned \<lparr>pix_width = 100 * zoom, pix_height = 100 * zoom,
       pix_pixel = (\<lambda>x y.
         if 0 \<le> x \<and> x < 100 * zoom \<and> 0 \<le> y \<and> y < 100 * zoom
         then Returned (if x < 50 * zoom then [0, 0, 0]
                        else if x < 95 * zoom then [114, 114, 114]
                        else [255, 255, 255])
         else Raised)\<rparr>"

section \<open>Evaluation of the text model\<close>

lemmas text_defs = lit_def whitespace_def isspace_def lstrip_def strip_def split_def
  startswith_def remove_char_def

lemmas latin1_defs = latin1_def latin1_isalpha_def latin1_upper_def latin1_lower_def

lemmas regex_defs = Plus_def Opt_def re_match_def pure_number_def currency_def code_token_def
  code_char_def single_char_def char_range_def

lemmas policy_defs = should_translate_text_def translate_text_conservative_def abbreviations_def
  common_terms_def

text \<open>Literals are equal when their characters are.\<close>

lemma lit_eq_iff: "lit a = lit b \<longleftrightarrow> a = b"
proof -
  have "inj (of_char :: char \<Rightarrow> nat)"
    by (rule injI) simp
  then show ?thesis
    by (simp add: lit_def inj_map_eq_map)
qed

section \<open>The patterns\<close>

text \<open>
  What the derivative matcher accepts for the two patterns without alternatives: a
  pure number is a non-empty string of decimal digits, a code-like token a string of
  at least three characters among \<^verbatim>\<open>A\<close> to \<^verbatim>\<open>Z\<close> and \<^verbatim>\<open>0\<close> to \<^verbatim>\<open>9\<close>. On a trimmed text the
  final newline that \<^verbatim>\<open>$\<close> tolerates cannot occur, so \<open>re_match\<close> is a full match.
\<close>

lemma matches_Void: "matches Void s = False"
  by (induction s) auto

lemma matches_Seq_Void: "matches (Seq Void r) s = False"
  by (induction s) auto

lemma matches_Alt: "matches (Alt r1 r2) s = (matches r1 s \<or> matches r2 s)"
  by (induction s arbitrary: r1 r2) auto

lemma matches_Seq_Eps: "matches (Seq Eps r) s = matches r s"
  by (cases s) (auto simp: matches_Alt matches_Seq_Void)

lemma matches_Seq_Sym:
  "matches (Seq (Sym p) r) s = (case s of [] \<Rightarrow> False | c # rest \<Rightarrow> p c \<and> matches r rest)"
  by (cases s) (auto simp: matches_Seq_Eps matches_Seq_Void)

lemma matches_Star_Sym: "matches (Star (Sym p)) s = list_all p s"
  by (induction s) (auto simp: matches_Seq_Eps matches_Seq_Void)

lemma pure_number_iff:
  "matches (pure_number db) s = (s \<noteq> [] \<and> list_all (isdecimal db) s)"
  unfolding pure_number_def Plus_def matches_Seq_Sym matches_Star_Sym
  by (auto split: list.splits)

lemma code_token_iff:
  "matches code_token s =
     (3 \<le> length s \<and> list_all (\<lambda>c. (0x41 \<le> c \<and> c \<le> 0x5A) \<or> (0x30 \<le> c \<and> c \<le> 0x39)) s)"
proof -
  let ?p = "\<lambda>c::nat. (0x41 \<le> c \<and> c \<le> 0x5A) \<or> (0x30 \<le> c \<and> c \<le> 0x39)"
  have p: "(\<lambda>c. char_range CHR ''A'' CHR ''Z'' c \<or> char_range CHR ''0'' CHR ''9'' c) = ?p"
    by (simp add: char_range_def)
  have "matches code_token s = (\<exists>a b c rest. s = a # b # c # rest \<and> list_all ?p s)"
    unfolding code_token_def code_char_def p matches_Seq_Sym matches_Star_Sym
    by (auto split: list.splits)
  also have "\<dots> = (3 \<le> length s \<and> list_all ?p s)"
  proof -
    have "(\<exists>a b c rest. s = a # b # c # rest) = (3 \<le> length s)"
      by (auto simp: numeral_3_eq_3 Suc_le_length_iff)
    then show ?thesis by blast
  qed
  finally show ?thesis .
qed

lemma last_strip_not_space: "strip s \<noteq> [] \<Longrightarrow> \<not> isspace (last (strip s))"
proof -
  assume "strip s \<noteq> []"
  then have ne: "lstrip (rev (lstrip s)) \<noteq> []" by (simp add: strip_def)
  then have "\<not> isspace (hd (lstrip (rev (lstrip s))))"
    unfolding lstrip_def by (rule hd_dropWhile)
  with ne show ?thesis by (simp add: strip_def last_rev)
qed

lemma re_match_strip: "re_match r (strip s) = matches r (strip s)"
proof (cases "strip s = []")
  case True
  then show ?thesis by (simp add: re_match_def)
next
  case False
  then have "\<not> isspace (last (strip s))" by (rule last_strip_not_space)
  then have "last (strip s) \<noteq> 0x0A"
    by (auto simp: isspace_def whitespace_def)
  then show ?thesis by (simp add: re_match_def)
qed

section \<open>Eligibility\<close>

text \<open>
  C1. Whatever the Unicode database: a text that, once trimmed, is a pure number, a
  currency amount or a code-like token, has at most two characters, is one of the
  abbreviations up to case, or has fewer than three letters, is not eligible:
  \<open>should_translate_text\<close> is false, and \<open>translate_text_conservative\<close> returns the text
  as it was given and has no effect, so the model is never called.
\<close>

theorem ineligible_text_unchanged:
  assumes "re_match (pure_number db) (strip text) \<or> re_match (currency db) (strip text)
           \<or> re_match code_token (strip text) \<or> length (strip text) \<le> 2
           \<or> upper db (strip text) \<in> set abbreviations
           \<or> length (filter (isalpha db) (strip text)) < 3"
  shows "should_translate_text db text = False
         \<and> translate_text_conservative db llm text target_lang retries = (text, [])"
proof -
  from assms have "\<not> should_translate_text db text"
    unfolding should_translate_text_def Let_def by auto
  then show ?thesis
    by (simp add: translate_text_conservative_def)
qed

text \<open>
  The theorem at one input of each kind: a number between blanks, an amount, a plan
  code, a two-letter word, an abbreviation in lower case, a text with two letters, and
  an abbreviation of capitals followed by a no-break space, which the trimming removes.
  The model given here would answer every call, and is not called.
\<close>

theorem ineligible_text_unchanged_witness:
  "re_match (pure_number latin1) (strip (lit '' 12345 ''))
   \<and> translate_text_conservative latin1 (\<lambda>k p. Returned (lit ''x'')) (lit '' 12345 '')
         (lit ''Spanish'') 3
       = (lit '' 12345 '', [])
   \<and> re_match (currency latin1) (strip (lit ''$1,200.50''))
   \<and> translate_text_conservative latin1 (\<lambda>k p. Returned (lit ''x'')) (lit ''$1,200.50'')
         (lit ''Spanish'') 3
       = (lit ''$1,200.50'', [])
   \<and> re_match code_token (strip (lit ''H5619136002''))
   \<and> translate_text_conservative latin1 (\<lambda>k p. Returned (lit ''x'')) (lit ''H5619136002'')
         (lit ''Spanish'') 3
       = (lit ''H5619136002'', [])
   \<and> length (strip (lit ''ok'')) \<le> 2
   \<and> translate_text_conservative latin1 (\<lambda>k p. Returned (lit ''x'')) (lit ''ok'')
         (lit ''Spanish'') 3
       = (lit ''ok'', [])
   \<and> upper latin1 (strip (lit ''n/a'')) \<in> set abbreviations
   \<and> translate_text_conservative latin1 (\<lambda>k p. Returned (lit ''x'')) (lit ''n/a'')
         (lit ''Spanish'') 3
       = (lit ''n/a'', [])
   \<and> length (filter (isalpha latin1) (strip (lit ''a1-2b3''))) < 3
   \<and> translate_text_conservative latin1 (\<lambda>k p. Returned (lit ''x'')) (lit ''a1-2b3'')
         (lit ''Spanish'') 3
       = (lit ''a1-2b3'', [])
   \<and> re_match code_token (strip (lit ''MRI'' @ [0xA0]))
   \<and> should_translate_text latin1 (lit ''MRI'' @ [0xA0]) = False
   \<and> translate_text_conservative latin1 (\<lambda>k p. Returned (lit ''x'')) (lit ''MRI'' @ [0xA0])
         (lit ''Spanish'') 3
       = (lit ''MRI'' @ [0xA0], [])"
proof -
  let ?llm = "\<lambda>(k::nat) (p::str). Returned (lit ''x'')"
  have h1: "re_match (pure_number latin1) (strip (lit '' 12345 ''))"
    by (simp add: text_defs regex_defs latin1_defs)
  have h2: "re_match (currency latin1) (strip (lit ''$1,200.50''))"
    by (simp add: text_defs regex_defs latin1_defs)
  have h3: "re_match code_token (strip (lit ''H5619136002''))"
    by (simp add: text_defs regex_defs)
  have h4: "length (strip (lit ''ok'')) \<le> 2"
    by (simp add: text_defs)
  have h5: "upper latin1 (strip (lit ''n/a'')) \<in> set abbreviations"
    by (simp add: text_defs abbreviations_def latin1_defs)
  have h6: "length (filter (isalpha latin1) (strip (lit ''a1-2b3''))) < 3"
    by (simp add: text_defs latin1_defs)
  have h7: "re_match code_token (strip (lit ''MRI'' @ [0xA0]))"
    by (simp add: text_defs regex_defs)
  show ?thesis
    using h1 h2 h3 h4 h5 h6 h7
      ineligible_text_unchanged [of latin1 "lit '' 12345 ''" ?llm "lit ''Spanish''" 3]
      ineligible_text_unchanged [of latin1 "lit ''$1,200.50''" ?llm "lit ''Spanish''" 3]
      ineligible_text_unchanged [of latin1 "lit ''H5619136002''" ?llm "lit ''Spanish''" 3]
      ineligible_text_unchanged [of latin1 "lit ''ok''" ?llm "lit ''Spanish''" 3]
      ineligible_text_unchanged [of latin1 "lit ''n/a''" ?llm "lit ''Spanish''" 3]
      ineligible_text_unchanged [of latin1 "lit ''a1-2b3''" ?llm "lit ''Spanish''" 3]
      ineligible_text_unchanged [of latin1 "lit ''MRI'' @ [0xA0]" ?llm "lit ''Spanish''" 3]
    by blast
qed

text \<open>
  A letter outside ASCII counts as a letter: \<^verbatim>\<open>a\<close>, \<open>0xF1\<close>, \<^verbatim>\<open>o\<close> has three letters, is
  eligible and goes to the model.
\<close>

lemma accented_word_is_eligible:
  "should_translate_text latin1 (lit ''a'' @ [0xF1] @ lit ''o'')
   \<and> translate_text_conservative latin1 (\<lambda>k p. Returned (lit ''year''))
         (lit ''a'' @ [0xF1] @ lit ''o'') (lit ''English'') 3
       = (lit ''year'', [Invoke (make_prompt (lit ''English'') (lit ''a'' @ [0xF1] @ lit ''o''))])"
proof -
  have e: "should_translate_text latin1 (lit ''a'' @ [0xF1] @ lit ''o'')"
    by (simp add: text_defs regex_defs policy_defs latin1_defs)
  have g: "map_of common_terms (strip (lower latin1 (lit ''a'' @ [0xF1] @ lit ''o''))) = None"
    by (simp add: text_defs common_terms_def latin1_defs)
  have c: "clean_response (lit ''English'') (lit ''year'') = lit ''year''"
    by (simp add: clean_response_def prefixes_def text_defs)
  show ?thesis
    using e g c by (simp add: translate_text_conservative_def py_range_def upt_rec)
qed

section \<open>Glossary\<close>

text \<open>
  C6. Whatever the Unicode database: an eligible text of at most two words whose
  lower-cased, trimmed form is a key of the glossary is translated to the glossary's
  value for that key, whatever the model would do, and with no effect: the model is
  not called. The key is looked up without regard to case and to surrounding blanks.
\<close>

theorem glossary_term_translated:
  assumes "should_translate_text db text"
      and "length (split text) \<le> 2"
      and "map_of common_terms (strip (lower db text)) = Some term"
  shows "translate_text_conservative db llm text target_lang retries = (term, [])"
  using assms by (simp add: translate_text_conservative_def)

text \<open>
  The theorem at a capitalised key, at a key between spaces, at a key in mixed case
  between no-break spaces, and at a key whose value has characters outside ASCII. The
  model given here raises at every call, and is not called.
\<close>

theorem glossary_term_translated_witness:
  "should_translate_text latin1 (lit ''Copay'') \<and> length (split (lit ''Copay'')) \<le> 2
   \<and> map_of common_terms (strip (lower latin1 (lit ''Copay''))) = Some (lit ''copago'')
   \<and> translate_text_conservative latin1 (\<lambda>k p. Raised) (lit ''Copay'') (lit ''Spanish'') 3
       = (lit ''copago'', [])
   \<and> should_translate_text latin1 (lit '' Deductible '')
   \<and> length (split (lit '' Deductible '')) \<le> 2
   \<and> map_of common_terms (strip (lower latin1 (lit '' Deductible ''))) = Some (lit ''deducible'')
   \<and> translate_text_conservative latin1 (\<lambda>k p. Raised) (lit '' Deductible '') (lit ''Spanish'') 3
       = (lit ''deducible'', [])
   \<and> should_translate_text latin1 ([0xA0] @ lit ''CoPay'' @ [0xA0])
   \<and> length (split ([0xA0] @ lit ''CoPay'' @ [0xA0])) \<le> 2
   \<and> map_of common_terms (strip (lower latin1 ([0xA0] @ lit ''CoPay'' @ [0xA0])))
       = Some (lit ''copago'')
   \<and> translate_text_conservative latin1 (\<lambda>k p. Raised) ([0xA0] @ lit ''CoPay'' @ [0xA0])
         (lit ''Spanish'') 3
       = (lit ''copago'', [])
   \<and> should_translate_text latin1 (lit ''Year'') \<and> length (split (lit ''Year'')) \<le> 2
   \<and> map_of common_terms (strip (lower latin1 (lit ''Year'')))
       = Some (lit ''a'' @ [0x221A, 0xB1] @ lit ''o'')
   \<and> translate_text_conservative latin1 (\<lambda>k p. Raised) (lit ''Year'') (lit ''Spanish'') 3
       = (lit ''a'' @ [0x221A, 0xB1] @ lit ''o'', [])"
proof -
  let ?llm = "\<lambda>(k::nat) (p::str). (Raised :: str outcome)"
  have a1: "should_translate_text latin1 (lit ''Copay'')"
    by (simp add: text_defs regex_defs policy_defs latin1_defs)
  have a2: "length (split (lit ''Copay'')) \<le> 2"
    by (simp add: text_defs)
  have a3: "map_of common_terms (strip (lower latin1 (lit ''Copay''))) = Some (lit ''copago'')"
    by (simp add: text_defs common_terms_def latin1_defs)
  have b1: "should_translate_text latin1 (lit '' Deductible '')"
    by (simp add: text_defs regex_defs policy_defs latin1_defs)
  have b2: "length (split (lit '' Deductible '')) \<le> 2"
    by (simp add: text_defs)
  have b3: "map_of common_terms (strip (lower latin1 (lit '' Deductible '')))
              = Some (lit ''deducible'')"
    by (simp add: text_defs common_terms_def latin1_defs)
  have c1: "should_translate_text latin1 ([0xA0] @ lit ''CoPay'' @ [0xA0])"
    by (simp add: text_defs regex_defs policy_defs latin1_defs)
  have c2: "length (split ([0xA0] @ lit ''CoPay'' @ [0xA0])) \<le> 2"
    by (simp add: text_defs)
  have c3: "map_of common_terms (strip (lower latin1 ([0xA0] @ lit ''CoPay'' @ [0xA0])))
              = Some (lit ''copago'')"
    by (simp add: text_defs common_terms_def latin1_defs)
  have d1: "should_translate_text latin1 (lit ''Year'')"
    by (simp add: text_defs regex_defs policy_defs latin1_defs)
  have d2: "length (split (lit ''Year'')) \<le> 2"
    by (simp add: text_defs)
  have d3: "map_of common_terms (strip (lower latin1 (lit ''Year'')))
              = Some (lit ''a'' @ [0x221A, 0xB1] @ lit ''o'')"
    by (simp add: text_defs common_terms_def latin1_defs)
  show ?thesis
    using a1 a2 a3 b1 b2 b3 c1 c2 c3 d1 d2 d3
      glossary_term_translated [OF a1 a2 a3, of ?llm "lit ''Spanish''" 3]
      glossary_term_translated [OF b1 b2 b3, of ?llm "lit ''Spanish''" 3]
      glossary_term_translated [OF c1 c2 c3, of ?llm "lit ''Spanish''" 3]
      glossary_term_translated [OF d1 d2 d3, of ?llm "lit ''Spanish''" 3]
    by blast
qed

section \<open>Retries\<close>

lemma attempts_all_raise:
  assumes "\<forall>k \<in> set ks. llm k (make_prompt lang txt) = Raised"
  shows "attempts llm txt lang retries ks =
           (txt, concat (map (\<lambda>k. Invoke (make_prompt lang txt) #
                     (if int k < retries - 1 then [Sleep (2 ^ k)] else [])) ks))"
  using assms by (induction ks) auto

lemma attempts_raise_then_return:
  assumes "\<forall>k \<in> set pre. llm k (make_prompt lang txt) = Raised"
      and "llm n (make_prompt lang txt) = Returned r"
  shows "attempts llm txt lang retries (pre @ n # post) =
           (clean_response lang r,
            concat (map (\<lambda>k. Invoke (make_prompt lang txt) #
                     (if int k < retries - 1 then [Sleep (2 ^ k)] else [])) pre)
            @ [Invoke (make_prompt lang txt)])"
  using assms by (induction pre) auto

lemma pauses_below:
  assumes "int n < retries"
  shows "concat (map (\<lambda>k. Invoke p # (if int k < retries - 1 then [Sleep (2 ^ k)] else []))
           [0..<n]) = backoff p n"
  using assms by (induction n) (auto simp: backoff_def)

lemma upt_split: "n < m \<Longrightarrow> [0..<m] = [0..<n] @ n # [Suc n..<m]"
  by (metis upt_conv_Cons le0 upt_add_eq_append le_add_diff_inverse less_imp_le_nat)

text \<open>
  C5. Whatever the Unicode database: let the text be eligible and not answered by the
  glossary, so that it goes to the model. If every attempt below \<open>retries\<close> raises, the
  translation returns the text unchanged; its effects are one call per attempt with a
  sleep of \<open>2 ^ k\<close> seconds after the \<open>k\<close>-th failed call, except after the last one (1 s,
  2 s, 4 s, ...). If the first \<open>n\<close> attempts raise and attempt \<open>n\<close>, still below \<open>retries\<close>,
  returns, the translation returns the cleaned response after exactly \<open>n\<close> retries, each
  preceded by its sleep, and makes no further call. No case raises: the result is a
  value.
\<close>

theorem retry_with_backoff:
  assumes elig: "should_translate_text db text"
      and nogl: "\<not> (length (split text) \<le> 2
                    \<and> map_of common_terms (strip (lower db text)) \<noteq> None)"
  shows "((\<forall>k. int k < retries \<longrightarrow> llm k (make_prompt lang text) = Raised) \<longrightarrow>
            translate_text_conservative db llm text lang retries =
              (text, if retries \<le> 0 then []
                     else backoff (make_prompt lang text) (nat retries - 1)
                          @ [Invoke (make_prompt lang text)]))
       \<and> (\<forall>n r. int n < retries \<and> (\<forall>k < n. llm k (make_prompt lang text) = Raised)
                 \<and> llm n (make_prompt lang text) = Returned r \<longrightarrow>
            translate_text_conservative db llm text lang retries =
              (clean_response lang r,
               backoff (make_prompt lang text) n @ [Invoke (make_prompt lang text)]))"
proof -
  let ?p = "make_prompt lang text"
  let ?pauses = "\<lambda>k. Invoke ?p # (if int k < retries - 1 then [Sleep (2 ^ k)] else [])"
  have run: "translate_text_conservative db llm text lang retries
               = attempts llm text lang retries [0..<nat retries]"
    using elig nogl by (auto simp: translate_text_conservative_def py_range_def)
  have fail: "translate_text_conservative db llm text lang retries =
                (text, if retries \<le> 0 then [] else backoff ?p (nat retries - 1) @ [Invoke ?p])"
    if all: "\<forall>k. int k < retries \<longrightarrow> llm k ?p = Raised"
  proof (cases "retries \<le> 0")
    case True
    then show ?thesis by (simp add: run)
  next
    case False
    define m where "m = nat retries - 1"
    have m: "nat retries = Suc m" "int m < retries" "\<not> int m < retries - 1"
      using False by (auto simp: m_def)
    have "\<forall>k \<in> set [0..<nat retries]. llm k ?p = Raised"
      using all by auto
    then have "attempts llm text lang retries [0..<nat retries] =
                 (text, concat (map ?pauses [0..<Suc m]))"
      using attempts_all_raise [of "[0..<nat retries]" llm lang "text" retries]
      by (simp only: m)
    also have "concat (map ?pauses [0..<Suc m]) = concat (map ?pauses [0..<m]) @ [Invoke ?p]"
      using m(3) by simp
    also have "concat (map ?pauses [0..<m]) = backoff ?p m"
      by (rule pauses_below) (rule m(2))
    finally show ?thesis using False by (simp add: run m_def)
  qed
  have succ: "translate_text_conservative db llm text lang retries =
                (clean_response lang r, backoff ?p n @ [Invoke ?p])"
    if n: "int n < retries" and pre: "\<forall>k < n. llm k ?p = Raised" and ret: "llm n ?p = Returned r"
    for n r
  proof -
    have lt: "n < nat retries" using n by simp
    have "\<forall>k \<in> set [0..<n]. llm k ?p = Raised" using pre by simp
    then show ?thesis
      using attempts_raise_then_return [of "[0..<n]" llm lang "text" n r retries
          "[Suc n..<nat retries]"] ret
        pauses_below [OF n, of ?p] by (simp add: run upt_split [OF lt])
  qed
  show ?thesis using fail succ by blast
qed

text \<open>
  The theorem at a text of three words and \<open>retries = 3\<close>: a model that always raises,
  and one that raises twice and then echoes a label and quotes around its answer.
\<close>

theorem retry_with_backoff_witness:
  "should_translate_text latin1 (lit ''Annual deductible amount'')
   \<and> \<not> (length (split (lit ''Annual deductible amount'')) \<le> 2
         \<and> map_of common_terms (strip (lower latin1 (lit ''Annual deductible amount''))) \<noteq> None)
   \<and> translate_text_conservative latin1 (\<lambda>k p. Raised) (lit ''Annual deductible amount'')
         (lit ''Spanish'') 3
       = (lit ''Annual deductible amount'',
          [Invoke (make_prompt (lit ''Spanish'') (lit ''Annual deductible amount'')), Sleep 1,
           Invoke (make_prompt (lit ''Spanish'') (lit ''Annual deductible amount'')), Sleep 2,
           Invoke (make_prompt (lit ''Spanish'') (lit ''Annual deductible amount''))])
   \<and> translate_text_conservative latin1
         (\<lambda>k p. if k < 2 then Raised
                 else Returned (lit ''Translation: '' @ [0x22] @ lit ''Monto deducible anual''
                                @ [0x22]))
         (lit ''Annual deductible amount'') (lit ''Spanish'') 3
       = (lit ''Monto deducible anual'',
          [Invoke (make_prompt (lit ''Spanish'') (lit ''Annual deductible amount'')), Sleep 1,
           Invoke (make_prompt (lit ''Spanish'') (lit ''Annual deductible amount'')), Sleep 2,
           Invoke (make_prompt (lit ''Spanish'') (lit ''Annual deductible amount''))])"
proof -
  let ?t = "lit ''Annual deductible amount''"
  let ?r = "(lit ''Translation: '') @ [0x22] @ lit ''Monto deducible anual'' @ [0x22]"
  have e: "should_translate_text latin1 ?t"
    by (simp add: text_defs regex_defs policy_defs latin1_defs)
  have g: "\<not> (length (split ?t) \<le> 2 \<and> map_of common_terms (strip (lower latin1 ?t)) \<noteq> None)"
    by (simp add: text_defs)
  have c: "clean_response (lit ''Spanish'') ?r = lit ''Monto deducible anual''"
    by (simp add: clean_response_def prefixes_def text_defs)
  have b: "backoff p 2 = [Invoke p, Sleep 1, Invoke p, Sleep 2]" for p
    by (simp add: backoff_def upt_rec)
  let ?p = "make_prompt (lit ''Spanish'') ?t"
  let ?llm = "\<lambda>(k::nat) (p::str). if k < 2 then Raised else Returned ?r"
  have r1: "translate_text_conservative latin1 (\<lambda>k p. Raised) ?t (lit ''Spanish'') 3
              = (?t, backoff ?p 2 @ [Invoke ?p])"
    using retry_with_backoff [OF e g, of 3 "\<lambda>k p. Raised" "lit ''Spanish''"] by simp
  have r2: "translate_text_conservative latin1 ?llm ?t (lit ''Spanish'') 3
              = (clean_response (lit ''Spanish'') ?r, backoff ?p 2 @ [Invoke ?p])"
    using retry_with_backoff [OF e g, of 3 ?llm "lit ''Spanish''", THEN conjunct2, rule_format,
        of 2 ?r]
    by simp
  show ?thesis
    using e g by (simp only: r1 r2 c b) simp
qed

section \<open>Redaction rectangle\<close>

text \<open>
  C3. For a span whose bounding box has \<open>x0 < x1\<close> and \<open>y0 < y1\<close> and whose font size is
  positive, the rectangle of \<open>create_better_redaction_rect\<close> strictly contains the
  bounding box in all four coordinates, whatever the text.
\<close>

theorem redaction_rect_contains_bbox:
  assumes "x0 < x1" and "y0 < y1" and "0 < font_size"
  shows "rect_x0 (create_better_redaction_rect (x0, y0, x1, y1) text font_size) < x0
       \<and> rect_y0 (create_better_redaction_rect (x0, y0, x1, y1) text font_size) < y0
       \<and> x1 < rect_x1 (create_better_redaction_rect (x0, y0, x1, y1) text font_size)
       \<and> y1 < rect_y1 (create_better_redaction_rect (x0, y0, x1, y1) text font_size)"
  by (auto simp: create_better_redaction_rect_def calculate_text_dimensions_def Let_def max_def)

theorem redaction_rect_contains_bbox_witness:
  "(10::real) < 60 \<and> (10::real) < 22 \<and> (0::real) < 12
   \<and> rect_x0 (create_better_redaction_rect (10, 10, 60, 22) (lit ''Copay'') 12) < 10
   \<and> rect_y0 (create_better_redaction_rect (10, 10, 60, 22) (lit ''Copay'') 12) < 10
   \<and> 60 < rect_x1 (create_better_redaction_rect (10, 10, 60, 22) (lit ''Copay'') 12)
   \<and> 22 < rect_y1 (create_better_redaction_rect (10, 10, 60, 22) (lit ''Copay'') 12)"
proof -
  have a: "(10::real) < 60" and b: "(10::real) < 22" and c: "(0::real) < 12"
    by simp_all
  show ?thesis
    using a b c redaction_rect_contains_bbox [OF a b c, of "lit ''Copay''"] by blast
qed

section \<open>The strategy ladder\<close>

text \<open>
  The loop of \<open>try_strategies\<close> attempts the calls of its strategies in order. With
  \<open>n\<close> the number of strategies that fail before the first success, it makes the
  first \<open>n + 1\<close> calls and succeeds; when all fail, it makes every call and fails.
  Each call is judged on the page as the earlier calls have left it.
\<close>

lemma try_strategies_first_fit:
  "\<exists>n \<le> length ss.
     (\<forall>j < n. \<not> fits draw (page @ take j (map (textbox_call text color) ss))
                  (map (textbox_call text color) ss ! j))
   \<and> (if n < length ss
      then fits draw (page @ take n (map (textbox_call text color) ss))
             (map (textbox_call text color) ss ! n)
         \<and> try_strategies draw page text color ss
             = (True, take (Suc n) (map (textbox_call text color) ss))
      else try_strategies draw page text color ss = (False, map (textbox_call text color) ss))"
proof (induction ss arbitrary: page)
  case Nil
  show ?case by simp
next
  case (Cons s ss)
  let ?c = "textbox_call text color s"
  let ?cs = "map (textbox_call text color) ss"
  show ?case
  proof (cases "fits draw page ?c")
    case True
    then have "try_strategies draw page text color (s # ss) = (True, [?c])"
      by (auto simp: fits_def Let_def split: outcome.splits)
    with True show ?thesis
      by (intro exI [of _ 0]) simp
  next
    case False
    obtain ok evs where r: "try_strategies draw (page @ [?c]) text color ss = (ok, evs)"
      by (cases "try_strategies draw (page @ [?c]) text color ss")
    from False have step: "try_strategies draw page text color (s # ss) = (ok, ?c # evs)"
      by (auto simp: fits_def Let_def r split: outcome.splits)
    from Cons.IH [of "page @ [?c]"] obtain n where n: "n \<le> length ss"
      and fails: "\<forall>j < n. \<not> fits draw ((page @ [?c]) @ take j ?cs) (?cs ! j)"
      and fin: "if n < length ss
                then fits draw ((page @ [?c]) @ take n ?cs) (?cs ! n)
                   \<and> try_strategies draw (page @ [?c]) text color ss = (True, take (Suc n) ?cs)
                else try_strategies draw (page @ [?c]) text color ss = (False, ?cs)"
      by blast
    let ?all = "map (textbox_call text color) (s # ss)"
    have len: "Suc n \<le> length (s # ss)" using n by simp
    have before: "\<forall>j < Suc n. \<not> fits draw (page @ take j ?all) (?all ! j)"
    proof (intro allI impI)
      fix j assume "j < Suc n"
      show "\<not> fits draw (page @ take j ?all) (?all ! j)"
      proof (cases j)
        case 0
        with False show ?thesis by simp
      next
        case (Suc i)
        with \<open>j < Suc n\<close> fails show ?thesis by simp
      qed
    qed
    have last: "if Suc n < length (s # ss)
                then fits draw (page @ take (Suc n) ?all) (?all ! Suc n)
                   \<and> try_strategies draw page text color (s # ss) = (True, take (Suc (Suc n)) ?all)
                else try_strategies draw page text color (s # ss) = (False, ?all)"
    proof (cases "n < length ss")
      case True
      with fin have "fits draw ((page @ [?c]) @ take n ?cs) (?cs ! n)"
        and "try_strategies draw (page @ [?c]) text color ss = (True, take (Suc n) ?cs)"
        by simp_all
      with True step r show ?thesis by simp
    next
      case False
      with fin have "try_strategies draw (page @ [?c]) text color ss = (False, ?cs)" by simp
      with False step r show ?thesis by simp
    qed
    from len before last show ?thesis by blast
  qed
qed

lemma color_rgb_black: "color_rgb c = (0, 0, 0)"
  by (cases c) (simp_all add: color_rgb_def)

lemma try_strategies_events:
  assumes "e \<in> set (snd (try_strategies draw page text color ss))"
  shows "e \<in> set (map (textbox_call text color) ss)"
proof -
  obtain n where "if n < length ss
      then fits draw (page @ take n (map (textbox_call text color) ss))
             (map (textbox_call text color) ss ! n)
         \<and> try_strategies draw page text color ss
             = (True, take (Suc n) (map (textbox_call text color) ss))
      else try_strategies draw page text color ss = (False, map (textbox_call text color) ss)"
    using try_strategies_first_fit [of ss draw page "text" color] by blast
  then have "snd (try_strategies draw page text color ss) = take (Suc n) (map (textbox_call text color) ss)
           \<or> snd (try_strategies draw page text color ss) = map (textbox_call text color) ss"
    by (cases "n < length ss") simp_all
  with assms show ?thesis
    by (metis in_set_takeD)
qed

section \<open>Evaluation of the page model\<close>

lemmas geometry_defs = create_better_redaction_rect_def calculate_text_dimensions_def
  original_rect_def expanded_rect_def width_def height_def

lemmas ladder_defs = strategies_def textbox_call_def clamp_size_def point_call_def color_rgb_def
  insert_text_with_fallbacks_def fits_def

lemmas sample_defs = copay_font_def copay_task_def plan_task_def members_plan_task_def
  boxes_never_fit_def
  boxes_never_fit_point_raises_def only_helv_def

text \<open>
  The font information of a span has a size within \<open>[6, 24]\<close>, so it is positive; the
  sample font is the one extracted from a bold red 12 pt span.
\<close>

lemma get_font_info_size:
  "6 \<le> fi_size (get_font_info db sp) \<and> fi_size (get_font_info db sp) \<le> 24"
  by (simp add: get_font_info_def Let_def)

lemma get_font_info_copay:
  "get_font_info latin1 \<lparr>span_text = lit ''Copay'', span_bbox = (10, 10, 40, 22),
      span_font = Some (lit ''Helvetica-Bold''), span_flags = Some 16, span_size = Some 12,
      span_color = Some (IntColor 16711680)\<rparr> = copay_font"
  by (simp add: get_font_info_def copay_font_def contains_def text_defs latin1_defs Let_def
      upt_rec)

lemma insert_text_events:
  assumes "e \<in> set (snd (insert_text_with_fallbacks draw page bbox text font_info))"
  shows "e \<in> set (map (textbox_call text (0, 0, 0)) (strategies bbox text font_info))
         \<or> e = point_call bbox text"
proof -
  let ?ss = "strategies bbox text font_info"
  obtain ok calls where r: "try_strategies draw page text (0, 0, 0) ?ss = (ok, calls)"
    by (cases "try_strategies draw page text (0, 0, 0) ?ss")
  from assms r have "e \<in> set calls \<or> e = point_call bbox text"
    by (auto simp: insert_text_with_fallbacks_def color_rgb_black
        split: if_splits bool.splits outcome.splits)
  moreover have "c \<in> set (map (textbox_call text (0, 0, 0)) ?ss)" if "c \<in> set calls" for c
  proof -
    from that r have "c \<in> set (snd (try_strategies draw page text (0, 0, 0) ?ss))" by simp
    then show ?thesis by (rule try_strategies_events)
  qed
  ultimately show ?thesis by blast
qed

text \<open>
  A text of blanks only, no-break spaces and other Unicode spaces included, is not
  inserted: nothing is attempted and the result is failure.
\<close>

lemma blank_text_not_inserted:
  "strip text = [] \<Longrightarrow> insert_text_with_fallbacks draw page bbox text font_info = (False, [])"
  by (simp add: insert_text_with_fallbacks_def)

lemma no_break_spaces_not_inserted:
  "insert_text_with_fallbacks draw page bbox [0xA0, 0x20, 0x2003] font_info = (False, [])"
  by (rule blank_text_not_inserted) (simp add: text_defs)

lemma textbox_call_color: "event_color (textbox_call text color s) = Some color"
  by (simp add: event_color_def textbox_call_def)

lemma point_call_color: "event_color (point_call bbox text) = Some (0, 0, 0)"
  by (simp add: event_color_def point_call_def split: prod.splits)

lemma ladder_all_fail:
  assumes "\<forall>j < length ss. \<not> fits draw (page @ take j (map (textbox_call text color) ss))
                                 (map (textbox_call text color) ss ! j)"
  shows "try_strategies draw page text color ss = (False, map (textbox_call text color) ss)"
proof -
  obtain n where "if n < length ss
      then fits draw (page @ take n (map (textbox_call text color) ss))
             (map (textbox_call text color) ss ! n)
         \<and> try_strategies draw page text color ss
             = (True, take (Suc n) (map (textbox_call text color) ss))
      else try_strategies draw page text color ss = (False, map (textbox_call text color) ss)"
    using try_strategies_first_fit [of ss draw page "text" color] by blast
  with assms show ?thesis
    by (cases "n < length ss") auto
qed

section \<open>Colour of the inserted text\<close>

text \<open>
  C10. Every operation that \<open>insert_text_with_fallbacks\<close> attempts, a text box of the
  ladder or the final point insertion, draws in black \<open>(0, 0, 0)\<close>, whatever the colour
  entry of the font information is (an integer, a float, a sequence, anything else)
  and whatever the renderer answers.
\<close>

theorem inserted_text_is_black:
  "\<forall>e \<in> set (snd (insert_text_with_fallbacks draw page bbox text font_info)).
      event_color e = Some (0, 0, 0)"
proof
  fix e
  assume "e \<in> set (snd (insert_text_with_fallbacks draw page bbox text font_info))"
  then have "e \<in> set (map (textbox_call text (0, 0, 0)) (strategies bbox text font_info))
             \<or> e = point_call bbox text"
    by (rule insert_text_events)
  then show "event_color e = Some (0, 0, 0)"
    by (auto simp: textbox_call_color point_call_color)
qed

text \<open>The theorem on a span extracted in red, with a renderer whose boxes never fit.\<close>

theorem inserted_text_is_black_witness:
  "fi_color copay_font = IntColor 16711680
   \<and> map event_color
         (snd (insert_text_with_fallbacks boxes_never_fit [] (10, 10, 40, 22) (lit ''copago'')
                 copay_font))
       = replicate 10 (Some (0, 0, 0))"
proof -
  let ?calls = "snd (insert_text_with_fallbacks boxes_never_fit [] (10, 10, 40, 22) (lit ''copago'')
                       copay_font)"
  have len: "length ?calls = 10"
    by (simp add: ladder_defs sample_defs geometry_defs text_defs Let_def)
  have "\<forall>c \<in> set (map event_color ?calls). c = Some (0, 0, 0)"
    using inserted_text_is_black [of boxes_never_fit "[]" "(10, 10, 40, 22)" "lit ''copago''"
        copay_font]
    by auto
  then have "replicate (length (map event_color ?calls)) (Some (0, 0, 0)) = map event_color ?calls"
    by (rule replicate_length_same)
  with len show ?thesis
    by (simp add: copay_font_def)
qed

section \<open>The terminal point insertion\<close>

text \<open>
  C4 as stated fails. With text boxes that never fit and a point insertion that
  raises, every strategy of the ladder fails, the point insertion is attempted, and
  \<open>insert_text_with_fallbacks\<close> reports failure for a non-blank text.
\<close>

theorem point_insertion_always_succeeds_counterexample:
  "strip (lit ''copago'') \<noteq> []
   \<and> insert_text_with_fallbacks boxes_never_fit_point_raises [] (10, 10, 40, 22) (lit ''copago'')
       copay_font
     = (False,
        map (textbox_call (lit ''copago'') (0, 0, 0))
          (strategies (10, 10, 40, 22) (lit ''copago'') copay_font)
        @ [InsertText (10, 20) (lit ''copago'') (lit ''helv'') 8 (0, 0, 0)])"
  by (simp add: ladder_defs sample_defs geometry_defs text_defs Let_def)

text \<open>
  C4, amended. For a text that is not blank, if every strategy of the ladder fails,
  \<open>insert_text_with_fallbacks\<close> attempts, after the nine text boxes, exactly one point
  insertion at \<open>(x0, y0 + 10)\<close> in \<^verbatim>\<open>helv\<close> at 8 pt in black, and reports what that
  insertion reports: success when the library returns a non-negative number, failure
  when it raises or returns a negative one.
\<close>

theorem point_insertion_fallback:
  assumes "strip text \<noteq> []"
      and "\<forall>j < length (strategies (x0, y0, x1, y1) text font_info).
             \<not> fits draw
                 (page @ take j (map (textbox_call text (0, 0, 0))
                                  (strategies (x0, y0, x1, y1) text font_info)))
                 (map (textbox_call text (0, 0, 0))
                    (strategies (x0, y0, x1, y1) text font_info) ! j)"
  shows "insert_text_with_fallbacks draw page (x0, y0, x1, y1) text font_info =
           (fits draw
              (page @ map (textbox_call text (0, 0, 0))
                        (strategies (x0, y0, x1, y1) text font_info))
              (InsertText (x0, y0 + 10) text (lit ''helv'') 8 (0, 0, 0)),
            map (textbox_call text (0, 0, 0)) (strategies (x0, y0, x1, y1) text font_info)
            @ [InsertText (x0, y0 + 10) text (lit ''helv'') 8 (0, 0, 0)])"
proof -
  have "try_strategies draw page text (0, 0, 0) (strategies (x0, y0, x1, y1) text font_info)
          = (False, map (textbox_call text (0, 0, 0))
                      (strategies (x0, y0, x1, y1) text font_info))"
    using assms(2) by (rule ladder_all_fail)
  with assms(1) show ?thesis
    by (simp add: insert_text_with_fallbacks_def color_rgb_black point_call_def fits_def
        split: outcome.splits)
qed

theorem point_insertion_fallback_witness:
  "strip (lit ''copago'') \<noteq> []
   \<and> list_all (\<lambda>call. \<not> fits boxes_never_fit [] call)
         (map (textbox_call (lit ''copago'') (0, 0, 0))
            (strategies (10, 10, 40, 22) (lit ''copago'') copay_font))
   \<and> insert_text_with_fallbacks boxes_never_fit [] (10, 10, 40, 22) (lit ''copago'') copay_font
     = (True,
        map (textbox_call (lit ''copago'') (0, 0, 0))
          (strategies (10, 10, 40, 22) (lit ''copago'') copay_font)
        @ [InsertText (10, 20) (lit ''copago'') (lit ''helv'') 8 (0, 0, 0)])"
proof -
  have h1: "strip (lit ''copago'') \<noteq> []"
    by (simp add: text_defs)
  have h2: "\<forall>j < length (strategies (10, 10, 40, 22) (lit ''copago'') copay_font).
         \<not> fits boxes_never_fit
             ([] @ take j (map (textbox_call (lit ''copago'') (0, 0, 0))
                            (strategies (10, 10, 40, 22) (lit ''copago'') copay_font)))
             (map (textbox_call (lit ''copago'') (0, 0, 0))
                (strategies (10, 10, 40, 22) (lit ''copago'') copay_font) ! j)"
    by (simp add: fits_def boxes_never_fit_def textbox_call_def)
  have h3: "fits boxes_never_fit
              ([] @ map (textbox_call (lit ''copago'') (0, 0, 0))
                      (strategies (10, 10, 40, 22) (lit ''copago'') copay_font))
              (InsertText (10, 10 + 10) (lit ''copago'') (lit ''helv'') 8 (0, 0, 0))"
    by (simp add: fits_def boxes_never_fit_def)
  have h4: "list_all (\<lambda>call. \<not> fits boxes_never_fit [] call)
         (map (textbox_call (lit ''copago'') (0, 0, 0))
            (strategies (10, 10, 40, 22) (lit ''copago'') copay_font))"
    by (simp add: list_all_iff fits_def boxes_never_fit_def textbox_call_def)
  show ?thesis
    using h1 h3 h4 point_insertion_fallback [OF h1 h2] by simp
qed

section \<open>Order of the ladder\<close>

text \<open>
  C7 as stated fails on the rectangle of the first six strategies. A 6 pt span has a
  bounding box lower than 8; the first strategy is then tried against a rectangle of
  height 12, not against the bounding box.
\<close>

theorem ladder_on_original_rect_counterexample:
  "insert_text_with_fallbacks (\<lambda>page call. Returned 0) [] (10, 10, 40, 17) (lit ''copago'')
       \<lparr>fi_font = lit ''helv'', fi_size = 6, fi_color = IntColor 0, fi_flags = 0\<rparr>
     = (True, [InsertTextbox (Rect 10 10 40 22) (lit ''copago'') (lit ''helv'') 6 (0, 0, 0)])
   \<and> Rect 10 10 40 22 \<noteq> Rect 10 10 40 17"
  by (simp add: ladder_defs geometry_defs text_defs Let_def)

text \<open>
  C7, amended. For a text that is not blank, the strategies are, in this order:
  (original font, original size), (original font, 0.9 size), (original font, 0.8 size),
  (\<^verbatim>\<open>helv\<close>, original size), (\<^verbatim>\<open>helv\<close>, 0.9 size), (\<^verbatim>\<open>helv\<close>, 8) against the rectangle of
  the span, whose right edge is moved to \<open>x0 + max 50 (8 * length text)\<close> when it is
  narrower than 10 and whose bottom edge is moved to \<open>y0 + 12\<close> when it is lower than 8;
  then (original font, original size), (\<^verbatim>\<open>helv\<close>, original size), (\<^verbatim>\<open>helv\<close>, 8) against the
  bounding box extended by 50 to the right and by 5 downward. Every attempt has its
  size clamped into \<open>[6, 20]\<close>. With \<open>n\<close> the number of strategies that fail before the
  first one that fits, exactly the first \<open>n + 1\<close> text boxes are attempted, in order,
  and the result is success; when all nine fail, all nine are attempted, followed by
  the point insertion.
\<close>

theorem fallback_ladder_order:
  assumes "strip text \<noteq> []"
  shows "strategies (x0, y0, x1, y1) text font_info =
           [\<lparr>s_font = fi_font font_info, s_size = fi_size font_info,
              s_rect = original_rect (x0, y0, x1, y1) text\<rparr>,
            \<lparr>s_font = fi_font font_info, s_size = fi_size font_info * (9 / 10),
              s_rect = original_rect (x0, y0, x1, y1) text\<rparr>,
            \<lparr>s_font = fi_font font_info, s_size = fi_size font_info * (8 / 10),
              s_rect = original_rect (x0, y0, x1, y1) text\<rparr>,
            \<lparr>s_font = lit ''helv'', s_size = fi_size font_info,
              s_rect = original_rect (x0, y0, x1, y1) text\<rparr>,
            \<lparr>s_font = lit ''helv'', s_size = fi_size font_info * (9 / 10),
              s_rect = original_rect (x0, y0, x1, y1) text\<rparr>,
            \<lparr>s_font = lit ''helv'', s_size = 8, s_rect = original_rect (x0, y0, x1, y1) text\<rparr>,
            \<lparr>s_font = fi_font font_info, s_size = fi_size font_info,
              s_rect = Rect x0 y0 (x1 + 50) (y1 + 5)\<rparr>,
            \<lparr>s_font = lit ''helv'', s_size = fi_size font_info,
              s_rect = Rect x0 y0 (x1 + 50) (y1 + 5)\<rparr>,
            \<lparr>s_font = lit ''helv'', s_size = 8, s_rect = Rect x0 y0 (x1 + 50) (y1 + 5)\<rparr>]
       \<and> original_rect (x0, y0, x1, y1) text =
           Rect x0 y0 (if x1 - x0 < 10 then x0 + max 50 (real (length text) * 8) else x1)
             (if y1 - y0 < 8 then y0 + 12 else y1)
       \<and> (\<exists>n \<le> 9.
            (\<forall>j < n. \<not> fits draw
                 (page @ take j (map (textbox_call text (0, 0, 0))
                                  (strategies (x0, y0, x1, y1) text font_info)))
                 (map (textbox_call text (0, 0, 0))
                    (strategies (x0, y0, x1, y1) text font_info) ! j))
          \<and> (if n < 9
             then fits draw
                    (page @ take n (map (textbox_call text (0, 0, 0))
                                     (strategies (x0, y0, x1, y1) text font_info)))
                    (map (textbox_call text (0, 0, 0))
                       (strategies (x0, y0, x1, y1) text font_info) ! n)
                \<and> insert_text_with_fallbacks draw page (x0, y0, x1, y1) text font_info =
                    (True, take (Suc n) (map (textbox_call text (0, 0, 0))
                                           (strategies (x0, y0, x1, y1) text font_info)))
             else snd (insert_text_with_fallbacks draw page (x0, y0, x1, y1) text font_info) =
                    map (textbox_call text (0, 0, 0))
                      (strategies (x0, y0, x1, y1) text font_info)
                    @ [point_call (x0, y0, x1, y1) text]))
       \<and> (\<forall>s. textbox_call text (0, 0, 0) s =
                 InsertTextbox (s_rect s) text (s_font s) (max 6 (min 20 (s_size s))) (0, 0, 0))"
proof -
  let ?ss = "strategies (x0, y0, x1, y1) text font_info"
  let ?calls = "map (textbox_call text (0, 0, 0)) ?ss"
  have len: "length ?ss = 9" by (simp add: strategies_def Let_def)
  have list: "?ss = [\<lparr>s_font = fi_font font_info, s_size = fi_size font_info,
              s_rect = original_rect (x0, y0, x1, y1) text\<rparr>,
            \<lparr>s_font = fi_font font_info, s_size = fi_size font_info * (9 / 10),
              s_rect = original_rect (x0, y0, x1, y1) text\<rparr>,
            \<lparr>s_font = fi_font font_info, s_size = fi_size font_info * (8 / 10),
              s_rect = original_rect (x0, y0, x1, y1) text\<rparr>,
            \<lparr>s_font = lit ''helv'', s_size = fi_size font_info,
              s_rect = original_rect (x0, y0, x1, y1) text\<rparr>,
            \<lparr>s_font = lit ''helv'', s_size = fi_size font_info * (9 / 10),
              s_rect = original_rect (x0, y0, x1, y1) text\<rparr>,
            \<lparr>s_font = lit ''helv'', s_size = 8, s_rect = original_rect (x0, y0, x1, y1) text\<rparr>,
            \<lparr>s_font = fi_font font_info, s_size = fi_size font_info,
              s_rect = Rect x0 y0 (x1 + 50) (y1 + 5)\<rparr>,
            \<lparr>s_font = lit ''helv'', s_size = fi_size font_info,
              s_rect = Rect x0 y0 (x1 + 50) (y1 + 5)\<rparr>,
            \<lparr>s_font = lit ''helv'', s_size = 8, s_rect = Rect x0 y0 (x1 + 50) (y1 + 5)\<rparr>]"
    by (simp add: strategies_def expanded_rect_def Let_def)
  have orig: "original_rect (x0, y0, x1, y1) text =
           Rect x0 y0 (if x1 - x0 < 10 then x0 + max 50 (real (length text) * 8) else x1)
             (if y1 - y0 < 8 then y0 + 12 else y1)"
    by (simp add: original_rect_def width_def height_def Let_def)
  obtain n where n: "n \<le> length ?ss"
    and before: "\<forall>j < n. \<not> fits draw (page @ take j ?calls) (?calls ! j)"
    and fin: "if n < length ?ss
              then fits draw (page @ take n ?calls) (?calls ! n)
                 \<and> try_strategies draw page text (0, 0, 0) ?ss = (True, take (Suc n) ?calls)
              else try_strategies draw page text (0, 0, 0) ?ss = (False, ?calls)"
    using try_strategies_first_fit [of ?ss draw page "text" "(0, 0, 0)"] by blast
  have run: "if n < 9
             then fits draw (page @ take n ?calls) (?calls ! n)
                \<and> insert_text_with_fallbacks draw page (x0, y0, x1, y1) text font_info =
                    (True, take (Suc n) ?calls)
             else snd (insert_text_with_fallbacks draw page (x0, y0, x1, y1) text font_info) =
                    ?calls @ [point_call (x0, y0, x1, y1) text]"
  proof (cases "n < 9")
    case True
    with fin len have "fits draw (page @ take n ?calls) (?calls ! n)"
      and "try_strategies draw page text (0, 0, 0) ?ss = (True, take (Suc n) ?calls)"
      by simp_all
    with True assms show ?thesis
      by (simp add: insert_text_with_fallbacks_def color_rgb_black)
  next
    case False
    with fin len have "try_strategies draw page text (0, 0, 0) ?ss = (False, ?calls)"
      by simp
    with False assms show ?thesis
      by (simp add: insert_text_with_fallbacks_def color_rgb_black split: outcome.splits)
  qed
  have clamp: "\<forall>s. textbox_call text (0, 0, 0) s =
                 InsertTextbox (s_rect s) text (s_font s) (max 6 (min 20 (s_size s))) (0, 0, 0)"
    by (simp add: textbox_call_def clamp_size_def max_def min_def)
  from n len have "n \<le> 9" by simp
  with before run have "\<exists>n \<le> 9. (\<forall>j < n. \<not> fits draw (page @ take j ?calls) (?calls ! j))
          \<and> (if n < 9
             then fits draw (page @ take n ?calls) (?calls ! n)
                \<and> insert_text_with_fallbacks draw page (x0, y0, x1, y1) text font_info =
                    (True, take (Suc n) ?calls)
             else snd (insert_text_with_fallbacks draw page (x0, y0, x1, y1) text font_info) =
                    ?calls @ [point_call (x0, y0, x1, y1) text])"
    by blast
  with list orig clamp show ?thesis by (simp only: simp_thms)
qed

text \<open>
  The theorem with a renderer that knows only the font \<^verbatim>\<open>helv\<close>: the three strategies in
  the bold font fail, the fourth fits, and no other is attempted. In a box 5 wide, the
  rectangle of the glossary's value for \<^verbatim>\<open>year\<close>, of four characters, is 50 wide, and the
  rectangle of a word of fifteen characters, one of them outside ASCII, is 120 wide.
\<close>

theorem fallback_ladder_order_witness:
  "strip (lit ''copago'') \<noteq> []
   \<and> original_rect (10, 10, 40, 22) (lit ''copago'') = Rect 10 10 40 22
   \<and> strip (lit ''a'' @ [0x221A, 0xB1] @ lit ''o'') \<noteq> []
   \<and> original_rect (10, 10, 15, 30) (lit ''a'' @ [0x221A, 0xB1] @ lit ''o'') = Rect 10 10 60 30
   \<and> strip (lit ''hospitalizaci'' @ [0xF3] @ lit ''n'') \<noteq> []
   \<and> original_rect (10, 10, 15, 30) (lit ''hospitalizaci'' @ [0xF3] @ lit ''n'')
       = Rect 10 10 130 30
   \<and> insert_text_with_fallbacks only_helv [] (10, 10, 40, 22) (lit ''copago'') copay_font
     = (True,
        [InsertTextbox (Rect 10 10 40 22) (lit ''copago'') (lit ''helv-bold'') 12 (0, 0, 0),
         InsertTextbox (Rect 10 10 40 22) (lit ''copago'') (lit ''helv-bold'') (54 / 5) (0, 0, 0),
         InsertTextbox (Rect 10 10 40 22) (lit ''copago'') (lit ''helv-bold'') (48 / 5) (0, 0, 0),
         InsertTextbox (Rect 10 10 40 22) (lit ''copago'') (lit ''helv'') 12 (0, 0, 0)])
   \<and> (\<exists>n \<le> 9.
         (\<forall>j < n. \<not> fits only_helv
              ([] @ take j (map (textbox_call (lit ''copago'') (0, 0, 0))
                             (strategies (10, 10, 40, 22) (lit ''copago'') copay_font)))
              (map (textbox_call (lit ''copago'') (0, 0, 0))
                 (strategies (10, 10, 40, 22) (lit ''copago'') copay_font) ! j))
       \<and> (if n < 9
          then fits only_helv
                 ([] @ take n (map (textbox_call (lit ''copago'') (0, 0, 0))
                                (strategies (10, 10, 40, 22) (lit ''copago'') copay_font)))
                 (map (textbox_call (lit ''copago'') (0, 0, 0))
                    (strategies (10, 10, 40, 22) (lit ''copago'') copay_font) ! n)
             \<and> insert_text_with_fallbacks only_helv [] (10, 10, 40, 22) (lit ''copago'')
                   copay_font =
                 (True, take (Suc n) (map (textbox_call (lit ''copago'') (0, 0, 0))
                                        (strategies (10, 10, 40, 22) (lit ''copago'') copay_font)))
          else snd (insert_text_with_fallbacks only_helv [] (10, 10, 40, 22) (lit ''copago'')
                      copay_font) =
                 map (textbox_call (lit ''copago'') (0, 0, 0))
                   (strategies (10, 10, 40, 22) (lit ''copago'') copay_font)
                 @ [point_call (10, 10, 40, 22) (lit ''copago'')]))"
proof -
  have h: "strip (lit ''copago'') \<noteq> []"
    by (simp add: text_defs)
  have run: "insert_text_with_fallbacks only_helv [] (10, 10, 40, 22) (lit ''copago'') copay_font
     = (True,
        [InsertTextbox (Rect 10 10 40 22) (lit ''copago'') (lit ''helv-bold'') 12 (0, 0, 0),
         InsertTextbox (Rect 10 10 40 22) (lit ''copago'') (lit ''helv-bold'') (54 / 5) (0, 0, 0),
         InsertTextbox (Rect 10 10 40 22) (lit ''copago'') (lit ''helv-bold'') (48 / 5) (0, 0, 0),
         InsertTextbox (Rect 10 10 40 22) (lit ''copago'') (lit ''helv'') 12 (0, 0, 0)])"
    by (simp add: ladder_defs sample_defs geometry_defs text_defs Let_def)
  note T = fallback_ladder_order [OF h, of 10 10 40 22 copay_font only_helv "[]"]
  from T have o: "original_rect (10, 10, 40, 22) (lit ''copago'') = Rect 10 10 40 22"
    by simp
  have hy: "strip (lit ''a'' @ [0x221A, 0xB1] @ lit ''o'') \<noteq> []"
    by (simp add: text_defs)
  have oy: "original_rect (10, 10, 15, 30) (lit ''a'' @ [0x221A, 0xB1] @ lit ''o'')
              = Rect 10 10 60 30"
    using fallback_ladder_order [OF hy, of 10 10 15 30 copay_font only_helv "[]"]
    by (simp add: lit_def)
  have hh: "strip (lit ''hospitalizaci'' @ [0xF3] @ lit ''n'') \<noteq> []"
    by (simp add: text_defs)
  have oh: "original_rect (10, 10, 15, 30) (lit ''hospitalizaci'' @ [0xF3] @ lit ''n'')
              = Rect 10 10 130 30"
    using fallback_ladder_order [OF hh, of 10 10 15 30 copay_font only_helv "[]"]
    by (simp add: lit_def)
  from T have "\<exists>n \<le> 9.
         (\<forall>j < n. \<not> fits only_helv
              ([] @ take j (map (textbox_call (lit ''copago'') (0, 0, 0))
                             (strategies (10, 10, 40, 22) (lit ''copago'') copay_font)))
              (map (textbox_call (lit ''copago'') (0, 0, 0))
                 (strategies (10, 10, 40, 22) (lit ''copago'') copay_font) ! j))
       \<and> (if n < 9
          then fits only_helv
                 ([] @ take n (map (textbox_call (lit ''copago'') (0, 0, 0))
                                (strategies (10, 10, 40, 22) (lit ''copago'') copay_font)))
                 (map (textbox_call (lit ''copago'') (0, 0, 0))
                    (strategies (10, 10, 40, 22) (lit ''copago'') copay_font) ! n)
             \<and> insert_text_with_fallbacks only_helv [] (10, 10, 40, 22) (lit ''copago'')
                   copay_font =
                 (True, take (Suc n) (map (textbox_call (lit ''copago'') (0, 0, 0))
                                        (strategies (10, 10, 40, 22) (lit ''copago'') copay_font)))
          else snd (insert_text_with_fallbacks only_helv [] (10, 10, 40, 22) (lit ''copago'')
                      copay_font) =
                 map (textbox_call (lit ''copago'') (0, 0, 0))
                   (strategies (10, 10, 40, 22) (lit ''copago'') copay_font)
                 @ [point_call (10, 10, 40, 22) (lit ''copago'')])"
    by (elim conjE)
  with h o hy oy hh oh run show ?thesis by (intro conjI)
qed

section \<open>Size of the redaction rectangle\<close>

text \<open>
  C2 as stated fails on the text that is measured. The span \<^verbatim>\<open>Copay\<close> is translated to
  \<^verbatim>\<open>copago\<close> by the glossary; at 12 pt in a box 30 wide, the rectangle is 36 wide without
  its padding, the estimated width of the five characters of the original, where the
  six characters of the translation would give 43.2.
\<close>

theorem redaction_sized_by_translation_counterexample:
  "translate_text_conservative latin1 (\<lambda>k p. Raised) (lit ''Copay'') (lit ''Spanish'') 3
     = (lit ''copago'', [])
   \<and> redaction_call copay_task = AddRedactAnnot (Rect 9 9 47 (127 / 5)) (1, 1, 1)
   \<and> rect_x1 (Rect 9 9 47 (127 / 5)) - rect_x0 (Rect 9 9 47 (127 / 5)) - 2 = 36
   \<and> max (40 - 10) (real (length (t_translated copay_task)) * (12 * (6 / 10))) = 216 / 5"
  by (simp add: sample_defs redaction_call_def geometry_defs text_defs regex_defs policy_defs
      latin1_defs)

text \<open>
  C2, amended. For every task, the rectangle redacted on the page has the top-left
  corner of the span's bounding box, for width the maximum of the width of the box and
  of the estimated width of the original text of the task (0.6 of the font size for
  each character, that is for each code point), for height the maximum of the height
  of the box and of 1.2 of the font size, and is inflated by 1 on every side; it is
  filled in white.
\<close>

theorem redaction_sized_by_original:
  "redaction_call task =
     (case t_bbox task of (x0, y0, x1, y1) \<Rightarrow>
        AddRedactAnnot
          (Rect (x0 - 1) (y0 - 1)
             (x0 + max (x1 - x0)
                     (real (length (t_original task)) * (fi_size (t_font_info task) * (6 / 10))) + 1)
             (y0 + max (y1 - y0) (fi_size (t_font_info task) * (12 / 10)) + 1))
          (1, 1, 1))"
  by (simp add: redaction_call_def geometry_defs split: prod.splits)

text \<open>
  The theorem at the task of \<^verbatim>\<open>Copay\<close>, and at a task whose original text has a character
  outside ASCII: thirteen characters at 12 pt are 93.6 wide, so the rectangle ends at
  \<open>10 + 93.6 + 1\<close>.
\<close>

theorem redaction_sized_by_original_witness:
  "redaction_call copay_task = AddRedactAnnot (Rect 9 9 47 (127 / 5)) (1, 1, 1)
   \<and> length (t_original members_plan_task) = 13
   \<and> redaction_call members_plan_task
       = AddRedactAnnot (Rect 9 9 (523 / 5) (127 / 5)) (1, 1, 1)"
  using redaction_sized_by_original [of copay_task]
    redaction_sized_by_original [of members_plan_task]
  by (simp add: sample_defs lit_def)

section \<open>Erasing before drawing\<close>

lemma is_insertion_textbox_call: "is_insertion (textbox_call text color s)"
  by (simp add: is_insertion_def textbox_call_def)

lemma is_insertion_point_call: "is_insertion (point_call bbox text)"
  by (simp add: is_insertion_def point_call_def split: prod.splits)

lemma not_insertion_redaction_call: "\<not> is_insertion (redaction_call task)"
  by (simp add: is_insertion_def redaction_call_def)

lemma redaction_call_not_apply: "redaction_call task \<noteq> ApplyRedactions"
  by (simp add: redaction_call_def)

lemma insert_text_insertions:
  "e \<in> set (snd (insert_text_with_fallbacks draw page bbox text font_info)) \<Longrightarrow> is_insertion e"
  by (auto dest!: insert_text_events simp: is_insertion_textbox_call is_insertion_point_call)

lemma insert_all_insertions:
  "e \<in> set (snd (insert_all draw page tasks)) \<Longrightarrow> is_insertion e"
proof (induction tasks arbitrary: page)
  case Nil
  then show ?case by simp
next
  case (Cons task rest)
  obtain ok calls where a: "insert_text_with_fallbacks draw page (t_bbox task) (t_translated task)
      (t_font_info task) = (ok, calls)"
    by (cases "insert_text_with_fallbacks draw page (t_bbox task) (t_translated task)
      (t_font_info task)")
  obtain n calls' where b: "insert_all draw (page @ calls) rest = (n, calls')"
    by (cases "insert_all draw (page @ calls) rest")
  from Cons.prems a b have "e \<in> set calls \<or> e \<in> set calls'"
    by auto
  then show ?case
  proof
    assume "e \<in> set calls"
    with a have "e \<in> set (snd (insert_text_with_fallbacks draw page (t_bbox task)
        (t_translated task) (t_font_info task)))"
      by simp
    then show ?thesis by (rule insert_text_insertions)
  next
    assume "e \<in> set calls'"
    with b have "e \<in> set (snd (insert_all draw (page @ calls) rest))" by simp
    then show ?thesis by (rule Cons.IH)
  qed
qed

lemma add_redactions_calls:
  "add_redactions draw page tasks = (ok, calls) \<Longrightarrow>
     (ok \<longrightarrow> calls = map redaction_call tasks
           \<and> (\<forall>j < length tasks.
                 draw (page @ take j (map redaction_call tasks)) (redaction_call (tasks ! j))
                   \<noteq> Raised))
     \<and> (\<forall>e \<in> set calls. \<not> is_insertion e \<and> e \<noteq> ApplyRedactions)"
proof (induction tasks arbitrary: page ok calls)
  case Nil
  then show ?case by auto
next
  case (Cons task rest)
  show ?case
  proof (cases "draw page (redaction_call task)")
    case Raised
    with Cons.prems show ?thesis
      by (auto simp: not_insertion_redaction_call redaction_call_not_apply
          redaction_call_not_apply [THEN not_sym])
  next
    case (Returned annot)
    obtain ok' calls' where r: "add_redactions draw (page @ [redaction_call task]) rest = (ok', calls')"
      by (cases "add_redactions draw (page @ [redaction_call task]) rest")
    from Cons.prems Returned r have eq: "ok = ok'" "calls = redaction_call task # calls'"
      by auto
    from Cons.IH [OF r] have ih1: "ok' \<longrightarrow> calls' = map redaction_call rest
           \<and> (\<forall>j < length rest.
                 draw ((page @ [redaction_call task]) @ take j (map redaction_call rest))
                   (redaction_call (rest ! j)) \<noteq> Raised)"
      and ih2: "\<forall>e \<in> set calls'. \<not> is_insertion e \<and> e \<noteq> ApplyRedactions"
      by blast+
    have "\<forall>j < length (task # rest).
            draw (page @ take j (map redaction_call (task # rest)))
              (redaction_call ((task # rest) ! j)) \<noteq> Raised" if ok
    proof (intro allI impI)
      fix j assume "j < length (task # rest)"
      show "draw (page @ take j (map redaction_call (task # rest)))
              (redaction_call ((task # rest) ! j)) \<noteq> Raised"
      proof (cases j)
        case 0
        with Returned show ?thesis by simp
      next
        case (Suc i)
        with \<open>j < length (task # rest)\<close> ih1 that eq show ?thesis by simp
      qed
    qed
    with ih1 ih2 eq show ?thesis
      by (auto simp: not_insertion_redaction_call redaction_call_not_apply
          redaction_call_not_apply [THEN not_sym])
  qed
qed

text \<open>
  C9. On every page, the operations attempted on the page are a run of erasures
  followed by a run of insertions. The erasures hold at most one application of the
  redactions. If any insertion is attempted, the erasures are exactly the redaction
  annotations of all the tasks of the page, in order, followed by one application of
  the redactions, and each of these operations had returned without raising: no
  insertion precedes the completion of the erase batch.
\<close>

theorem erase_batch_before_insertions:
  "\<exists>erasures insertions.
      snd (redact_and_insert draw page tasks) = erasures @ insertions
    \<and> (\<forall>e \<in> set erasures. \<not> is_insertion e)
    \<and> (\<forall>e \<in> set insertions. is_insertion e)
    \<and> length (filter (\<lambda>e. e = ApplyRedactions) erasures) \<le> 1
    \<and> (insertions \<noteq> [] \<longrightarrow>
          erasures = map redaction_call tasks @ [ApplyRedactions]
        \<and> (\<forall>j < length tasks.
              draw (page @ take j (map redaction_call tasks)) (redaction_call (tasks ! j))
                \<noteq> Raised)
        \<and> draw (page @ map redaction_call tasks) ApplyRedactions \<noteq> Raised)"
proof -
  obtain ok calls where r: "add_redactions draw page tasks = (ok, calls)"
    by (cases "add_redactions draw page tasks")
  note shape = add_redactions_calls [OF r]
  have noapply: "filter (\<lambda>e. e = ApplyRedactions) calls = []"
    using shape by (auto simp: filter_empty_conv)
  show ?thesis
  proof (cases ok)
    case False
    with r have "snd (redact_and_insert draw page tasks) = calls @ []"
      by (simp add: redact_and_insert_def)
    with shape noapply show ?thesis
      by (intro exI [of _ calls] exI [of _ "[]"]) simp
  next
    case True
    with shape have calls: "calls = map redaction_call tasks"
      and drawn: "\<forall>j < length tasks.
              draw (page @ take j (map redaction_call tasks)) (redaction_call (tasks ! j))
                \<noteq> Raised"
      by blast+
    show ?thesis
    proof (cases "draw (page @ calls) ApplyRedactions")
      case Raised
      with r True have "snd (redact_and_insert draw page tasks) = (calls @ [ApplyRedactions]) @ []"
        by (simp add: redact_and_insert_def)
      with shape noapply show ?thesis
        by (intro exI [of _ "calls @ [ApplyRedactions]"] exI [of _ "[]"])
           (auto simp: is_insertion_def)
    next
      case (Returned applied)
      obtain n ins where i: "insert_all draw (page @ calls @ [ApplyRedactions]) tasks = (n, ins)"
        by (cases "insert_all draw (page @ calls @ [ApplyRedactions]) tasks")
      have ins: "\<forall>e \<in> set ins. is_insertion e"
      proof
        fix e assume "e \<in> set ins"
        with i have "e \<in> set (snd (insert_all draw (page @ calls @ [ApplyRedactions]) tasks))"
          by simp
        then show "is_insertion e" by (rule insert_all_insertions)
      qed
      from r True Returned i
      have "snd (redact_and_insert draw page tasks) = (calls @ [ApplyRedactions]) @ ins"
        by (simp add: redact_and_insert_def)
      moreover have "draw (page @ map redaction_call tasks) ApplyRedactions \<noteq> Raised"
        using Returned calls by simp
      ultimately show ?thesis
        using shape noapply ins calls drawn
        by (intro exI [of _ "calls @ [ApplyRedactions]"] exI [of _ ins])
           (auto simp: is_insertion_def)
    qed
  qed
qed

text \<open>
  The theorem on a page with two tasks, with a renderer that knows only the font
  \<^verbatim>\<open>helv\<close>: two annotations, one application, then four text boxes for each task.
\<close>

theorem erase_batch_before_insertions_witness:
  "redact_and_insert only_helv [] [copay_task, plan_task] =
     (Inserted 2,
      [AddRedactAnnot (Rect 9 9 47 (127 / 5)) (1, 1, 1),
       AddRedactAnnot (Rect 9 29 (199 / 5) (227 / 5)) (1, 1, 1),
       ApplyRedactions]
      @ map (textbox_call (lit ''copago'') (0, 0, 0))
          (take 4 (strategies (10, 10, 40, 22) (lit ''copago'') copay_font))
      @ map (textbox_call (lit ''plan'') (0, 0, 0))
          (take 4 (strategies (10, 30, 34, 42) (lit ''plan'') copay_font)))
   \<and> (\<exists>erasures insertions.
          snd (redact_and_insert only_helv [] [copay_task, plan_task]) = erasures @ insertions
        \<and> (\<forall>e \<in> set erasures. \<not> is_insertion e)
        \<and> (\<forall>e \<in> set insertions. is_insertion e)
        \<and> length (filter (\<lambda>e. e = ApplyRedactions) erasures) \<le> 1
        \<and> (insertions \<noteq> [] \<longrightarrow>
              erasures = map redaction_call [copay_task, plan_task] @ [ApplyRedactions]
            \<and> (\<forall>j < length [copay_task, plan_task].
                  only_helv ([] @ take j (map redaction_call [copay_task, plan_task]))
                    (redaction_call ([copay_task, plan_task] ! j)) \<noteq> Raised)
            \<and> only_helv ([] @ map redaction_call [copay_task, plan_task]) ApplyRedactions
                \<noteq> Raised))"
proof -
  have "redact_and_insert only_helv [] [copay_task, plan_task] =
     (Inserted 2,
      [AddRedactAnnot (Rect 9 9 47 (127 / 5)) (1, 1, 1),
       AddRedactAnnot (Rect 9 29 (199 / 5) (227 / 5)) (1, 1, 1),
       ApplyRedactions]
      @ map (textbox_call (lit ''copago'') (0, 0, 0))
          (take 4 (strategies (10, 10, 40, 22) (lit ''copago'') copay_font))
      @ map (textbox_call (lit ''plan'') (0, 0, 0))
          (take 4 (strategies (10, 30, 34, 42) (lit ''plan'') copay_font)))"
    by (simp add: redact_and_insert_def redaction_call_def ladder_defs sample_defs geometry_defs
        text_defs Let_def)
  then show ?thesis
    using erase_batch_before_insertions [of only_helv "[]" "[copay_task, plan_task]"]
    by (intro conjI)
qed

section \<open>The vote of the background sampler\<close>

text \<open>
  The counter of a list holds the distinct elements in the order of their first
  occurrence, each with its number of occurrences; the maximum by count, the first
  among equals, is therefore the first element of the list that none outnumbers.
\<close>

lemma Counter_snoc: "Counter (xs @ [x]) = counter_add x (Counter xs)"
  by (simp add: Counter_def)

lemma firsts_snoc: "firsts (xs @ [x]) = (if x \<in> set xs then firsts xs else firsts xs @ [x])"
  by (simp add: firsts_def)

lemma set_firsts: "set (firsts xs) = set xs"
  by (simp add: firsts_def)

lemma distinct_firsts: "distinct (firsts xs)"
  by (simp add: firsts_def)

lemma counter_add_counts:
  assumes "distinct ks"
  shows "counter_add x (map (\<lambda>k. (k, f k)) ks) =
           (if x \<in> set ks then map (\<lambda>k. (k, if k = x then Suc (f k) else f k)) ks
            else map (\<lambda>k. (k, f k)) ks @ [(x, 1)])"
  using assms by (induction ks) auto

lemma count_list_snoc:
  "count_list (xs @ [x]) k = (if k = x then Suc (count_list xs k) else count_list xs k)"
  by (induction xs) auto

lemma Counter_counts: "Counter xs = map (\<lambda>k. (k, count_list xs k)) (firsts xs)"
proof (induction xs rule: rev_induct)
  case Nil
  show ?case by (simp add: Counter_def firsts_def)
next
  case (snoc x xs)
  have step: "Counter (xs @ [x]) = counter_add x (map (\<lambda>k. (k, count_list xs k)) (firsts xs))"
    by (simp add: Counter_snoc snoc.IH)
  show ?case
  proof (cases "x \<in> set xs")
    case True
    then show ?thesis
      by (simp add: step counter_add_counts distinct_firsts set_firsts firsts_snoc
          count_list_snoc)
  next
    case False
    then have "map (\<lambda>k. (k, count_list (xs @ [x]) k)) (firsts xs)
               = map (\<lambda>k. (k, count_list xs k)) (firsts xs)"
      by (intro map_cong) (auto simp: set_firsts count_list_snoc)
    with False show ?thesis
      by (simp add: step counter_add_counts distinct_firsts set_firsts firsts_snoc
          count_list_snoc count_notin)
  qed
qed

lemma first_max_position:
  "\<exists>pre post. best # items = pre @ first_max best items # post
      \<and> (\<forall>item \<in> set pre. snd item < snd (first_max best items))
      \<and> (\<forall>item \<in> set post. snd item \<le> snd (first_max best items))"
proof (induction items arbitrary: best)
  case Nil
  have "[best] = [] @ first_max best [] # []" by simp
  then show ?case by fastforce
next
  case (Cons item items)
  show ?case
  proof (cases "snd best < snd item")
    case True
    then have fm: "first_max best (item # items) = first_max item items" by simp
    from Cons.IH [of item] obtain pre post where
      p: "item # items = pre @ first_max item items # post"
      and lt: "\<forall>i \<in> set pre. snd i < snd (first_max item items)"
      and le: "\<forall>i \<in> set post. snd i \<le> snd (first_max item items)"
      by blast
    have "snd item \<le> snd (first_max item items)"
    proof (cases pre)
      case Nil
      from p have "item # items = first_max item items # post"
        unfolding Nil by (simp only: append_Nil)
      then have "item = first_max item items" by (rule list.inject [THEN iffD1, THEN conjunct1])
      then have "snd item = snd (first_max item items)" by (rule arg_cong)
      then show ?thesis by (rule eq_refl)
    next
      case (Cons a as)
      with p lt show ?thesis by auto
    qed
    with True have big: "snd best < snd (first_max item items)" by simp
    have "best # item # items = (best # pre) @ first_max item items # post"
      using p by simp
    moreover have "\<forall>i \<in> set (best # pre). snd i < snd (first_max item items)"
      using big lt by simp
    ultimately show ?thesis
      unfolding fm using le by blast
  next
    case False
    then have fm: "first_max best (item # items) = first_max best items" by simp
    from Cons.IH [of best] obtain pre post where
      p: "best # items = pre @ first_max best items # post"
      and lt: "\<forall>i \<in> set pre. snd i < snd (first_max best items)"
      and le: "\<forall>i \<in> set post. snd i \<le> snd (first_max best items)"
      by blast
    show ?thesis
    proof (cases pre)
      case Nil
      from p have "best # items = first_max best items # post"
        unfolding Nil by (simp only: append_Nil)
      then have bi: "best = first_max best items \<and> items = post"
        by (rule list.inject [THEN iffD1])
      note b = bi [THEN conjunct1] and i = bi [THEN conjunct2]
      have "best # item # items = [] @ first_max best items # (item # items)"
        using b by simp
      moreover have "\<forall>i \<in> set (item # items). snd i \<le> snd (first_max best items)"
        using False le b i by (metis not_less set_ConsD)
      ultimately show ?thesis
        unfolding fm by (metis empty_iff empty_set)
    next
      case (Cons a as)
      from p have "best # items = a # (as @ first_max best items # post)"
        unfolding Cons by (simp only: append_Cons)
      then have ai: "best = a \<and> items = as @ first_max best items # post"
        by (rule list.inject [THEN iffD1])
      note a = ai [THEN conjunct1, symmetric] and items = ai [THEN conjunct2]
      have "best \<in> set pre" unfolding Cons a by simp
      with lt have "snd best < snd (first_max best items)" by blast
      with False have small: "snd item < snd (first_max best items)" by simp
      have "best # item # items = best # item # (as @ first_max best items # post)"
        using items by metis
      then have "best # item # items = (best # item # as) @ first_max best items # post"
        by (simp only: append_Cons)
      moreover have "\<forall>i \<in> set (best # item # as). snd i < snd (first_max best items)"
        using small lt Cons a by simp
      ultimately show ?thesis
        unfolding fm using le by blast
    qed
  qed
qed

lemma find_first_match:
  "P r \<Longrightarrow> \<forall>x \<in> set pre. \<not> P x \<Longrightarrow> find P (pre @ r # post) = Some r"
  by (induction pre) auto

lemma first_max_find:
  "find (\<lambda>item. \<forall>other \<in> set (best # items). snd other \<le> snd item) (best # items)
     = Some (first_max best items)"
proof -
  obtain pre post where
    p: "best # items = pre @ first_max best items # post"
    and lt: "\<forall>i \<in> set pre. snd i < snd (first_max best items)"
    and le: "\<forall>i \<in> set post. snd i \<le> snd (first_max best items)"
    using first_max_position [of best items] by blast
  let ?P = "\<lambda>item. \<forall>other \<in> set (pre @ first_max best items # post). snd other \<le> snd item"
  have "?P (first_max best items)"
    using lt le by (auto intro: less_imp_le)
  moreover have "\<forall>x \<in> set pre. \<not> ?P x"
    using lt by (auto simp: not_le)
  ultimately have "find ?P (pre @ first_max best items # post) = Some (first_max best items)"
    by (rule find_first_match)
  then show ?thesis by (simp only: p [symmetric])
qed

lemma find_snoc:
  "find P (xs @ [x]) =
     (case find P xs of None \<Rightarrow> (if P x then Some x else None) | Some a \<Rightarrow> Some a)"
  by (induction xs) auto

lemma find_firsts: "find P (firsts xs) = find P xs"
proof (induction xs rule: rev_induct)
  case Nil
  show ?case by (simp add: firsts_def)
next
  case (snoc x xs)
  show ?case
  proof (cases "find P xs")
    case None
    then have "\<not> P x" if "x \<in> set xs"
      using that by (auto simp: find_None_iff)
    with None snoc.IH show ?thesis
      by (auto simp: firsts_snoc find_snoc)
  next
    case (Some a)
    with snoc.IH show ?thesis
      by (auto simp: firsts_snoc find_snoc)
  qed
qed

lemma find_map_key:
  "find P (map f xs) = map_option f (find (\<lambda>x. P (f x)) xs)"
  by (induction xs) auto

lemma most_common_first_most_frequent:
  "most_common_1 (Counter xs) =
     (case first_most_frequent xs of None \<Rightarrow> [] | Some x \<Rightarrow> [(x, count_list xs x)])"
proof (cases "Counter xs")
  case Nil
  then have "firsts xs = []" by (simp add: Counter_counts)
  then have "xs = []" using set_firsts [of xs] by simp
  then show ?thesis
    by (simp add: most_common_1_def Counter_def first_most_frequent_def)
next
  case (Cons item rest)
  let ?g = "\<lambda>k. (k, count_list xs k)"
  have "find (\<lambda>i. \<forall>other \<in> set (Counter xs). snd other \<le> snd i) (Counter xs)
          = Some (first_max item rest)"
    using first_max_find [of item rest] Cons by simp
  moreover have "find (\<lambda>i. \<forall>other \<in> set (Counter xs). snd other \<le> snd i) (Counter xs)
          = map_option ?g (find (\<lambda>x. \<forall>y \<in> set xs. count_list xs y \<le> count_list xs x) (firsts xs))"
    by (simp add: Counter_counts find_map_key set_firsts)
  ultimately have "map_option ?g (first_most_frequent xs) = Some (first_max item rest)"
    by (simp add: first_most_frequent_def find_firsts)
  with Cons show ?thesis
    by (auto simp: most_common_1_def)
qed

lemma vote_first_most_frequent:
  assumes "bound globals ''Counter''"
  shows "vote globals colors =
           Returned (case first_most_frequent (map round_color colors) of
                       None \<Rightarrow> (1, 1, 1) | Some color \<Rightarrow> tenths_rgb color)"
proof (cases "colors = []")
  case True
  then show ?thesis by (simp add: vote_def first_most_frequent_def)
next
  case False
  let ?rs = "map round_color colors"
  from False obtain c cs where "?rs = c # cs" by (cases colors) auto
  then have "first_most_frequent ?rs \<noteq> None"
    using most_common_first_most_frequent [of ?rs]
    by (auto simp: Counter_counts firsts_def most_common_1_def split: list.splits option.splits)
  with False assms show ?thesis
    by (auto simp: vote_def Let_def most_common_first_most_frequent)
qed

lemma round_hundredths_range: "0 \<le> round_hundredths c \<and> round_hundredths c \<le> 100"
proof -
  have "0 \<le> uint c" and "uint c < 256"
    using uint_lt2p [of c] by simp_all
  then have "(200 * uint c + 255) div 510 \<le> 51255 div 510"
    by (intro zdiv_mono1) simp_all
  moreover have "0 \<le> (200 * uint c + 255) div 510"
    using \<open>0 \<le> uint c\<close> by (simp add: pos_imp_zdiv_nonneg_iff)
  ultimately have "0 \<le> (200 * uint c + 255) div 510 \<and> (200 * uint c + 255) div 510 \<le> 100"
    by simp
  then show ?thesis by (simp add: round_hundredths_def)
qed

lemma round_tenths_range: "0 \<le> h \<Longrightarrow> h \<le> 100 \<Longrightarrow> 0 \<le> round_tenths h \<and> round_tenths h \<le> 10"
  by (auto simp: round_tenths_def)

lemma sample_color_range:
  "sample_color pix x y = Some color \<Longrightarrow> in_tenths (round_color color)"
  using round_hundredths_range round_tenths_range
  by (auto simp: sample_color_def round_color_def in_tenths_def
      split: outcome.splits list.splits)

lemma sample_all_v4_range:
  "color \<in> set (sample_all_v4 pix coords) \<Longrightarrow> in_tenths (round_color color)"
  by (induction pix coords rule: sample_all_v4.induct)
     (auto split: option.splits if_splits dest: sample_color_range)

lemmas raster_defs = banded_page_def py_int_def round_hundredths_def round_tenths_def
  round_color_def tenths_rgb_def sample_color_def sample_coords_v3_def sample_coords_v4_def
  rounded_colors_v3_def rounded_colors_v4_def first_most_frequent_def

text \<open>
  In \<^verbatim>\<open>v4.py\<close>, whose module imports \<^verbatim>\<open>fitz\<close> and \<^verbatim>\<open>Counter\<close>, \<open>detect_background_color\<close>
  returns a colour and never raises, whatever the raster answers (a rendering that
  fails, pixels outside the raster, pixels with too few channels). The colour is white
  when no sample succeeds. Otherwise it is, among the sampled colours rounded to one
  decimal per channel, the first in sample order that no other outnumbers: the most
  frequent one, ties going to the one met first. Every colour that votes has its
  channels among 0, 0.1, ..., 1.
\<close>

theorem background_color_vote_v4:
  "detect_background_color_v4 page bbox zoom =
     Returned (case first_most_frequent (rounded_colors_v4 page bbox zoom) of
                 None \<Rightarrow> (1, 1, 1) | Some color \<Rightarrow> tenths_rgb color)
   \<and> (rounded_colors_v4 page bbox zoom = [] \<longrightarrow>
        detect_background_color_v4 page bbox zoom = Returned (1, 1, 1))
   \<and> (\<forall>color \<in> set (rounded_colors_v4 page bbox zoom). in_tenths color)"
proof -
  have names: "bound v4_globals ''fitz''" "bound v4_globals ''Counter''"
    by (simp_all add: bound_def v4_globals_def)
  have v4: "detect_background_color_v4 page bbox zoom =
     Returned (case first_most_frequent (rounded_colors_v4 page bbox zoom) of
                 None \<Rightarrow> (1, 1, 1) | Some color \<Rightarrow> tenths_rgb color)"
    by (cases "page zoom")
       (simp_all add: detect_background_color_v4_def rounded_colors_v4_def names
          vote_first_most_frequent first_most_frequent_def)
  have e4: "rounded_colors_v4 page bbox zoom = [] \<longrightarrow>
        detect_background_color_v4 page bbox zoom = Returned (1, 1, 1)"
    by (simp add: v4 first_most_frequent_def)
  have r4: "in_tenths color" if "color \<in> set (rounded_colors_v4 page bbox zoom)" for color
    using that by (cases "page zoom") (auto simp: rounded_colors_v4_def dest: sample_all_v4_range)
  from v4 e4 r4 show ?thesis by blast
qed

text \<open>
  \<^verbatim>\<open>v4.py\<close> on the banded page: a clear majority of grey, which is 0.45 after the first
  rounding and 0.5 after the second; a tie of black and white that goes to black, met
  first; a region outside the raster, with no sample, that gives white; and a page that
  cannot be rendered.
\<close>

lemma background_color_vote_v4_examples:
  "rounded_colors_v4 banded_page (40, 40, 60, 50) 2
     = [(5, 5, 5), (0, 0, 0), (5, 5, 5), (0, 0, 0), (5, 5, 5)]
   \<and> detect_background_color_v4 banded_page (40, 40, 60, 50) 2 = Returned (1 / 2, 1 / 2, 1 / 2)
   \<and> rounded_colors_v4 banded_page (40, 40, 100, 50) 2
     = [(5, 5, 5), (0, 0, 0), (10, 10, 10), (0, 0, 0), (10, 10, 10)]
   \<and> detect_background_color_v4 banded_page (40, 40, 100, 50) 2 = Returned (0, 0, 0)
   \<and> rounded_colors_v4 banded_page (500, 500, 520, 510) 2 = []
   \<and> detect_background_color_v4 banded_page (500, 500, 520, 510) 2 = Returned (1, 1, 1)
   \<and> rounded_colors_v4 (\<lambda>zoom. Raised) (40, 40, 60, 50) 2 = []
   \<and> detect_background_color_v4 (\<lambda>zoom. Raised) (40, 40, 60, 50) 2 = Returned (1, 1, 1)"
proof -
  have a: "rounded_colors_v4 banded_page (40, 40, 60, 50) 2
     = [(5, 5, 5), (0, 0, 0), (5, 5, 5), (0, 0, 0), (5, 5, 5)]"
    by (simp add: raster_defs Let_def)
  have c: "rounded_colors_v4 banded_page (40, 40, 100, 50) 2
     = [(5, 5, 5), (0, 0, 0), (10, 10, 10), (0, 0, 0), (10, 10, 10)]"
    by (simp add: raster_defs Let_def)
  have d: "rounded_colors_v4 banded_page (500, 500, 520, 510) 2 = []"
    by (simp add: raster_defs Let_def)
  have e: "rounded_colors_v4 (\<lambda>zoom. Raised) (40, 40, 60, 50) 2 = []"
    by (simp add: rounded_colors_v4_def)
  have a': "detect_background_color_v4 banded_page (40, 40, 60, 50) 2
              = Returned (1 / 2, 1 / 2, 1 / 2)"
    using background_color_vote_v4 [of banded_page "(40, 40, 60, 50)" 2]
    by (simp add: a first_most_frequent_def tenths_rgb_def)
  have c': "detect_background_color_v4 banded_page (40, 40, 100, 50) 2 = Returned (0, 0, 0)"
    using background_color_vote_v4 [of banded_page "(40, 40, 100, 50)" 2]
    by (simp add: c first_most_frequent_def tenths_rgb_def)
  have d': "detect_background_color_v4 banded_page (500, 500, 520, 510) 2 = Returned (1, 1, 1)"
    using background_color_vote_v4 [of banded_page "(500, 500, 520, 510)" 2]
    by (simp add: d first_most_frequent_def)
  have e': "detect_background_color_v4 (\<lambda>zoom. Raised) (40, 40, 60, 50) 2 = Returned (1, 1, 1)"
    using background_color_vote_v4 [of "\<lambda>zoom. Raised" "(40, 40, 60, 50)" 2]
    by (simp add: e first_most_frequent_def)
  from a a' c c' d d' e e' show ?thesis by (intro conjI)
qed

text \<open>
  In \<^verbatim>\<open>v3.py\<close> the name \<^verbatim>\<open>fitz\<close> is not bound: the first statement of the function raises
  \<^verbatim>\<open>NameError\<close>, the handler of the outer \<^verbatim>\<open>try\<close> catches it, and the function returns
  white whatever the page, the region and the zoom are. It never raises, and never
  samples.
\<close>

lemma background_color_v3_always_white:
  "detect_background_color_v3 page bbox zoom = Returned (1, 1, 1)"
  by (simp add: detect_background_color_v3_def bound_def v3_globals_def)

text \<open>
  C8 holds of \<^verbatim>\<open>v4.py\<close>, as shown above, and fails on \<^verbatim>\<open>v3.py\<close>. On the banded page, for
  the region \<open>(40, 40, 60, 50)\<close> at zoom 2, the colours at the five sample points of
  \<^verbatim>\<open>v3.py\<close> are, in tenths, black, grey, black, grey, grey: the most frequent one is the
  grey \<open>(0.5, 0.5, 0.5)\<close>, three times. \<^verbatim>\<open>v3.py\<close> returns white, where \<^verbatim>\<open>v4.py\<close> returns the
  grey.
\<close>

theorem background_color_vote_missing_imports:
  "rounded_colors_v3 banded_page (40, 40, 60, 50) 2
     = [(0, 0, 0), (5, 5, 5), (0, 0, 0), (5, 5, 5), (5, 5, 5)]
   \<and> most_common_1 (Counter (rounded_colors_v3 banded_page (40, 40, 60, 50) 2))
     = [((5, 5, 5), 3)]
   \<and> detect_background_color_v3 banded_page (40, 40, 60, 50) 2 = Returned (1, 1, 1)
   \<and> detect_background_color_v4 banded_page (40, 40, 60, 50) 2 = Returned (1 / 2, 1 / 2, 1 / 2)"
proof -
  have a: "rounded_colors_v3 banded_page (40, 40, 60, 50) 2
     = [(0, 0, 0), (5, 5, 5), (0, 0, 0), (5, 5, 5), (5, 5, 5)]"
    by (simp add: raster_defs Let_def)
  have b: "most_common_1 (Counter [(0, 0, 0), (5, 5, 5), (0, 0, 0), (5, 5, 5), (5, 5, 5)])
             = [((5 :: int, 5 :: int, 5 :: int), 3)]"
    by (simp add: most_common_1_def Counter_def)
  have c: "detect_background_color_v3 banded_page (40, 40, 60, 50) 2 = Returned (1, 1, 1)"
    by (simp add: detect_background_color_v3_def bound_def v3_globals_def)
  have d: "detect_background_color_v4 banded_page (40, 40, 60, 50) 2
             = Returned (1 / 2, 1 / 2, 1 / 2)"
    by (simp add: detect_background_color_v4_def bound_def v4_globals_def vote_def
        most_common_1_def Counter_def raster_defs Let_def)
  from a b c d show ?thesis by (simp only: simp_thms)
qed

end
